theory Spec2Isabelle
  imports Main "HOL-Library.AList"
begin

section \<open>Credential records and errors\<close>

text \<open>
  The struct \<^verbatim>\<open>OAuthToken\<close> of auth/models.go. A \<^verbatim>\<open>time.Time\<close> is an instant in
  nanoseconds since the epoch, a \<^verbatim>\<open>time.Duration\<close> a number of nanoseconds held in a
  signed 64-bit integer: the wrap-around and the saturation of the Go library are written
  out below (\<open>wrap64\<close> for the arithmetic of durations, \<open>sat64\<close> for \<^verbatim>\<open>Time.Sub\<close>).
  \<^verbatim>\<open>ExpiresIn\<close> is a Go \<^verbatim>\<open>int\<close>, which the JSON decoder keeps within 64 bits. Pointers to
  tokens are modelled by the token values.
\<close>

record OAuthToken =
  AccessToken :: string
  RefreshToken :: string
  TokenType :: string
  ExpiresIn :: int
  ExpiresAt :: int
  RealmID :: string

text \<open>
  A Go \<^verbatim>\<open>error\<close>: a message, a wrapped error (\<^verbatim>\<open>fmt.Errorf("...: %w", err)\<close>), or the
  message built from a status code and a response body.
\<close>

datatype error =
    Msg string
  | Wrapped string error
  | StatusError string nat string

definition Second :: int where
  "Second = 1000000000"

definition Minute :: int where
  "Minute = 60 * Second"

definition Hour :: int where
  "Hour = 60 * Minute"

definition wrap64 :: "int \<Rightarrow> int" where
  "wrap64 x = (x + 2 ^ 63) mod 2 ^ 64 - 2 ^ 63"

definition sat64 :: "int \<Rightarrow> int" where
  "sat64 d = (if d < - (2 ^ 63) then - (2 ^ 63) else if 2 ^ 63 - 1 < d then 2 ^ 63 - 1 else d)"

section \<open>The environment and the state of the process\<close>

text \<open>
  Everything the code reads from outside the process is an answer of the environment. The
  \<open>n\<close>-th interaction of a run (a call of the health check, a Redis command, a request to
  the authorization server, a reading of the clock, a save of the session) gets the
  answer the environment holds at index \<open>n\<close>; the state counts the interactions in
  \<open>tick\<close>. Any sequence of answers is an environment, so a theorem for every
  environment covers every behaviour of Redis, of the authorization server and of the
  clock, also the changes that other processes make between two interactions.

  Redis is known by its answers only: to a \<^verbatim>\<open>GET\<close> it answers \<^verbatim>\<open>redis.Nil\<close>, another error
  or the bytes stored; to a \<^verbatim>\<open>SET\<close> or a \<^verbatim>\<open>DEL\<close> an error or none. The authorization server
  is known by what becomes of a request: it cannot be built, it cannot be sent, or it is
  answered with a status and a body. The functions of \<^verbatim>\<open>encoding/json\<close> and \<^verbatim>\<open>net/url\<close> that
  the code calls are parameters of the environment as well.
\<close>

datatype redis_get_reply =
    RedisNil
  | RedisGetError error
  | RedisBytes string

datatype token_reply =
    NewRequestFailed error
  | DoFailed error
  | Responded nat string

record env =
  healthAt :: "nat \<Rightarrow> bool"
  redisSetAt :: "nat \<Rightarrow> error option"
  redisGetAt :: "nat \<Rightarrow> redis_get_reply"
  redisDelAt :: "nat \<Rightarrow> error option"
  clockAt :: "nat \<Rightarrow> int"
  tokenEndpointAt :: "nat \<Rightarrow> token_reply"
  revokeEndpointAt :: "nat \<Rightarrow> token_reply"
  sessionSaveAt :: "nat \<Rightarrow> error option"
  jsonMarshal :: "OAuthToken \<Rightarrow> error + string"
  jsonUnmarshal :: "string \<Rightarrow> error + OAuthToken"
  jsonDecode :: "string \<Rightarrow> error + OAuthToken"
  urlQueryGet :: "string \<Rightarrow> string \<Rightarrow> string"

text \<open>
  The events a run leaves behind, in the order of the source's statements: the result of
  a health check, the operations on \<^verbatim>\<open>cacheMutex\<close>, the Redis commands sent, the lines
  printed with \<^verbatim>\<open>log.Printf\<close> (format and error), and the requests sent upstream (the
  form posted to the token endpoint, the token posted to the revocation endpoint).
\<close>

datatype event =
    EvHealthCheck bool
  | EvLock
  | EvUnlock
  | EvRLock
  | EvRUnlock
  | EvRedisSet string string int
  | EvRedisGet string
  | EvRedisDel string
  | EvLog string error
  | EvTokenRequest "(string \<times> string) list"
  | EvRevokeRequest string

text \<open>
  \<^verbatim>\<open>localCache\<close> is the Go map of the fallback store, as an association list with one
  pair for each key.
\<close>

record world =
  localCache :: "(string \<times> OAuthToken) list"
  trace :: "event list"
  tick :: nat

definition emit :: "event \<Rightarrow> world \<Rightarrow> world" where
  "emit e w = w\<lparr>trace := trace w @ [e]\<rparr>"

definition advance :: "world \<Rightarrow> world" where
  "advance w = w\<lparr>tick := Suc (tick w)\<rparr>"

definition healthCheck :: "env \<Rightarrow> world \<Rightarrow> bool \<times> world" where
  "healthCheck e w =
     (let b = healthAt e (tick w) in (b, advance (emit (EvHealthCheck b) w)))"

definition time_Now :: "env \<Rightarrow> world \<Rightarrow> int \<times> world" where
  "time_Now e w = (clockAt e (tick w), advance w)"

text \<open>\<^verbatim>\<open>time.Until(t)\<close> is \<^verbatim>\<open>t.Sub(time.Now())\<close>, which saturates.\<close>

definition time_Until :: "env \<Rightarrow> int \<Rightarrow> world \<Rightarrow> int \<times> world" where
  "time_Until e t w = (case time_Now e w of (now, w1) \<Rightarrow> (sat64 (t - now), w1))"

definition redis_Set :: "env \<Rightarrow> string \<Rightarrow> string \<Rightarrow> int \<Rightarrow> world \<Rightarrow> error option \<times> world" where
  "redis_Set e k v ttl w = (redisSetAt e (tick w), advance (emit (EvRedisSet k v ttl) w))"

definition redis_Get :: "env \<Rightarrow> string \<Rightarrow> world \<Rightarrow> redis_get_reply \<times> world" where
  "redis_Get e k w = (redisGetAt e (tick w), advance (emit (EvRedisGet k) w))"

definition redis_Del :: "env \<Rightarrow> string \<Rightarrow> world \<Rightarrow> error option \<times> world" where
  "redis_Del e k w = (redisDelAt e (tick w), advance (emit (EvRedisDel k) w))"

section \<open>The Redis token store (auth/token_store.go)\<close>

definition key :: "string \<Rightarrow> string \<Rightarrow> string" where
  "key prefix userID = prefix @ '':token:'' @ userID"

definition RedisTokenStore_SaveToken ::
  "env \<Rightarrow> string \<Rightarrow> string \<Rightarrow> OAuthToken \<Rightarrow> world \<Rightarrow> error option \<times> world" where
  "RedisTokenStore_SaveToken e prefix userID token w =
     (case jsonMarshal e token of
        Inl err \<Rightarrow> (Some (Wrapped ''failed to marshal token'' err), w)
      | Inr data \<Rightarrow>
          (case time_Until e (ExpiresAt token) w of
             (until, w1) \<Rightarrow>
               (case redis_Set e (key prefix userID) data (wrap64 (until + 24 * Hour)) w1 of
                  (Some err, w2) \<Rightarrow> (Some (Wrapped ''failed to save token'' err), w2)
                | (None, w2) \<Rightarrow> (None, w2))))"

definition RedisTokenStore_GetToken ::
  "env \<Rightarrow> string \<Rightarrow> string \<Rightarrow> world \<Rightarrow> (error + OAuthToken) \<times> world" where
  "RedisTokenStore_GetToken e prefix userID w =
     (case redis_Get e (key prefix userID) w of
        (RedisNil, w1) \<Rightarrow> (Inl (Msg ''no token found for user''), w1)
      | (RedisGetError err, w1) \<Rightarrow> (Inl (Wrapped ''failed to get token'' err), w1)
      | (RedisBytes data, w1) \<Rightarrow>
          (case jsonUnmarshal e data of
             Inl err \<Rightarrow> (Inl (Wrapped ''failed to unmarshal token'' err), w1)
           | Inr token \<Rightarrow> (Inr token, w1)))"

definition RedisTokenStore_DeleteToken ::
  "env \<Rightarrow> string \<Rightarrow> string \<Rightarrow> world \<Rightarrow> error option \<times> world" where
  "RedisTokenStore_DeleteToken e prefix userID w =
     (case redis_Del e (key prefix userID) w of
        (Some err, w1) \<Rightarrow> (Some (Wrapped ''failed to delete token'' err), w1)
      | (None, w1) \<Rightarrow> (None, w1))"

section \<open>The fallback token store (auth/token_store_fallback.go)\<close>

text \<open>
  The assignment \<^verbatim>\<open>s.localCache[userID] = token\<close>, the \<^verbatim>\<open>delete\<close> of a key, and the read of
  \<^verbatim>\<open>GetToken\<close> under the read lock, which ends with the token or the store's own error.
\<close>

definition cache_store :: "string \<Rightarrow> OAuthToken \<Rightarrow> world \<Rightarrow> world" where
  "cache_store userID token w = w\<lparr>localCache := AList.update userID token (localCache w)\<rparr>"

definition cache_delete :: "string \<Rightarrow> world \<Rightarrow> world" where
  "cache_delete userID w = w\<lparr>localCache := AList.delete userID (localCache w)\<rparr>"

definition FallbackTokenStore_SaveToken ::
  "env \<Rightarrow> string \<Rightarrow> string \<Rightarrow> OAuthToken \<Rightarrow> world \<Rightarrow> error option \<times> world" where
  "FallbackTokenStore_SaveToken e prefix userID token w =
     (let w1 = emit EvUnlock (cache_store userID token (emit EvLock w)) in
      case healthCheck e w1 of
        (True, w2) \<Rightarrow>
          (case RedisTokenStore_SaveToken e prefix userID token w2 of
             (Some err, w3) \<Rightarrow>
               (None, emit (EvLog ''Warning: Failed to save token to Redis'' err) w3)
           | (None, w3) \<Rightarrow> (None, w3))
      | (False, w2) \<Rightarrow> (None, w2))"

definition notFound :: error where
  "notFound = Msg ''token not found for user''"

definition cache_lookup ::
  "string \<Rightarrow> world \<Rightarrow> (error + OAuthToken) \<times> world" where
  "cache_lookup userID w =
     (let w1 = emit EvRLock w; r = map_of (localCache w1) userID; w2 = emit EvRUnlock w1 in
      case r of
        Some token \<Rightarrow> (Inr token, w2)
      | None \<Rightarrow> (Inl notFound, w2))"

definition FallbackTokenStore_GetToken ::
  "env \<Rightarrow> string \<Rightarrow> string \<Rightarrow> world \<Rightarrow> (error + OAuthToken) \<times> world" where
  "FallbackTokenStore_GetToken e prefix userID w =
     (case healthCheck e w of
        (True, w1) \<Rightarrow>
          (case RedisTokenStore_GetToken e prefix userID w1 of
             (Inr token, w2) \<Rightarrow>
               (Inr token, emit EvUnlock (cache_store userID token (emit EvLock w2)))
           | (Inl err, w2) \<Rightarrow>
               cache_lookup userID (emit (EvLog ''Warning: Failed to get token from Redis'' err) w2))
      | (False, w1) \<Rightarrow> cache_lookup userID w1)"

definition FallbackTokenStore_DeleteToken ::
  "env \<Rightarrow> string \<Rightarrow> string \<Rightarrow> world \<Rightarrow> error option \<times> world" where
  "FallbackTokenStore_DeleteToken e prefix userID w =
     (let w1 = emit EvUnlock (cache_delete userID (emit EvLock w)) in
      case healthCheck e w1 of
        (True, w2) \<Rightarrow>
          (case RedisTokenStore_DeleteToken e prefix userID w2 of
             (Some err, w3) \<Rightarrow>
               (None, emit (EvLog ''Warning: Failed to delete token from Redis'' err) w3)
           | (None, w3) \<Rightarrow> (None, w3))
      | (False, w2) \<Rightarrow> (None, w2))"

text \<open>
  One turn of the loop of \<^verbatim>\<open>StartReplicationRoutine\<close> on \<^verbatim>\<open>ticker.C\<close>. Go leaves the
  order in which a map is ranged over unspecified; the model ranges over the association
  list in its order, and the theorems about a pass speak of the entries, not of an order.
\<close>

fun replicate_tokens ::
  "env \<Rightarrow> string \<Rightarrow> (string \<times> OAuthToken) list \<Rightarrow> world \<Rightarrow> world" where
  "replicate_tokens e prefix [] w = w"
| "replicate_tokens e prefix ((userID, token) # rest) w =
     (case RedisTokenStore_SaveToken e prefix userID token w of
        (Some err, w1) \<Rightarrow>
          replicate_tokens e prefix rest
            (emit (EvLog (''Replication error for user '' @ userID) err) w1)
      | (None, w1) \<Rightarrow> replicate_tokens e prefix rest w1)"

definition replication_pass :: "env \<Rightarrow> string \<Rightarrow> world \<Rightarrow> world" where
  "replication_pass e prefix w =
     (case healthCheck e w of
        (False, w1) \<Rightarrow> w1
      | (True, w1) \<Rightarrow>
          (let w2 = emit EvRLock w1;
               tokensToReplicate = localCache w2;
               w3 = emit EvRUnlock w2
           in replicate_tokens e prefix tokensToReplicate w3))"

text \<open>
  The loop itself waits for the context to be cancelled or for the ticker; the wake-ups
  it receives are the input.
\<close>

datatype wakeup = CtxDone | TickerC

fun replication_routine :: "env \<Rightarrow> string \<Rightarrow> wakeup list \<Rightarrow> world \<Rightarrow> world" where
  "replication_routine e prefix [] w = w"
| "replication_routine e prefix (CtxDone # rest) w = w"
| "replication_routine e prefix (TickerC # rest) w =
     replication_routine e prefix rest (replication_pass e prefix w)"

section \<open>The store capability (auth/models.go)\<close>

text \<open>
  The interface \<^verbatim>\<open>TokenStore\<close> has two implementations in the repository; each carries
  the key prefix of its Redis store.
\<close>

datatype TokenStore = RedisStore string | FallbackStore string

fun TokenStore_SaveToken ::
  "env \<Rightarrow> TokenStore \<Rightarrow> string \<Rightarrow> OAuthToken \<Rightarrow> world \<Rightarrow> error option \<times> world" where
  "TokenStore_SaveToken e (RedisStore prefix) = RedisTokenStore_SaveToken e prefix"
| "TokenStore_SaveToken e (FallbackStore prefix) = FallbackTokenStore_SaveToken e prefix"

fun TokenStore_GetToken ::
  "env \<Rightarrow> TokenStore \<Rightarrow> string \<Rightarrow> world \<Rightarrow> (error + OAuthToken) \<times> world" where
  "TokenStore_GetToken e (RedisStore prefix) = RedisTokenStore_GetToken e prefix"
| "TokenStore_GetToken e (FallbackStore prefix) = FallbackTokenStore_GetToken e prefix"

fun TokenStore_DeleteToken ::
  "env \<Rightarrow> TokenStore \<Rightarrow> string \<Rightarrow> world \<Rightarrow> error option \<times> world" where
  "TokenStore_DeleteToken e (RedisStore prefix) = RedisTokenStore_DeleteToken e prefix"
| "TokenStore_DeleteToken e (FallbackStore prefix) = FallbackTokenStore_DeleteToken e prefix"

section \<open>The OAuth service (auth/service.go)\<close>

record OAuthConfig =
  ClientID :: string
  ClientSecret :: string
  RedirectURI :: string
  Scopes :: "string list"
  AuthURL :: string
  TokenURL :: string
  APIBaseURL :: string

record Service =
  config :: OAuthConfig
  tokenStore :: TokenStore

text \<open>
  \<^verbatim>\<open>executeTokenRequest\<close>: the request is built, sent, and a response with status 200 is
  decoded into a token; the realm id is then taken from the query of the request's URL
  (the configured token URL) when it has one.
\<close>

definition executeTokenRequest ::
  "env \<Rightarrow> Service \<Rightarrow> (string \<times> string) list \<Rightarrow> world \<Rightarrow> (error + OAuthToken) \<times> world" where
  "executeTokenRequest e s data w =
     (case tokenEndpointAt e (tick w) of
        NewRequestFailed err \<Rightarrow> (Inl (Wrapped ''failed to create token request'' err), advance w)
      | DoFailed err \<Rightarrow>
          (Inl (Wrapped ''token request failed'' err), advance (emit (EvTokenRequest data) w))
      | Responded status body \<Rightarrow>
          (let w1 = advance (emit (EvTokenRequest data) w) in
           if status \<noteq> 200
           then (Inl (StatusError ''token request failed with status'' status body), w1)
           else
             (case jsonDecode e body of
                Inl err \<Rightarrow> (Inl (Wrapped ''failed to parse token response'' err), w1)
              | Inr token \<Rightarrow>
                  (let realmID = urlQueryGet e (TokenURL (config s)) ''realm_id'' in
                   if realmID \<noteq> '''' then (Inr (token\<lparr>RealmID := realmID\<rparr>), w1)
                   else (Inr token, w1)))))"

definition Service_HandleCallback ::
  "env \<Rightarrow> Service \<Rightarrow> string \<Rightarrow> string \<Rightarrow> string \<Rightarrow> world \<Rightarrow> (error + OAuthToken) \<times> world" where
  "Service_HandleCallback e s code state userID w =
     (let data = [(''grant_type'', ''authorization_code''), (''code'', code),
                  (''redirect_uri'', RedirectURI (config s))] in
      case executeTokenRequest e s data w of
        (Inl err, w1) \<Rightarrow> (Inl err, w1)
      | (Inr token, w1) \<Rightarrow>
          (case time_Now e w1 of
             (now, w2) \<Rightarrow>
               (let token1 = token\<lparr>ExpiresAt := now + wrap64 (ExpiresIn token * Second)\<rparr> in
                case TokenStore_SaveToken e (tokenStore s) userID token1 w2 of
                  (Some err, w3) \<Rightarrow> (Inl (Wrapped ''failed to save token'' err), w3)
                | (None, w3) \<Rightarrow> (Inr token1, w3))))"

definition Service_RefreshToken ::
  "env \<Rightarrow> Service \<Rightarrow> string \<Rightarrow> world \<Rightarrow> (error + OAuthToken) \<times> world" where
  "Service_RefreshToken e s userID w =
     (case TokenStore_GetToken e (tokenStore s) userID w of
        (Inl err, w1) \<Rightarrow> (Inl (Wrapped ''failed to get token for refresh'' err), w1)
      | (Inr token, w1) \<Rightarrow>
          (let data = [(''grant_type'', ''refresh_token''),
                       (''refresh_token'', RefreshToken token)] in
           case executeTokenRequest e s data w1 of
             (Inl err, w2) \<Rightarrow> (Inl err, w2)
           | (Inr newToken, w2) \<Rightarrow>
               (case time_Now e w2 of
                  (now, w3) \<Rightarrow>
                    (let newToken1 =
                           newToken\<lparr>ExpiresAt := now + wrap64 (ExpiresIn newToken * Second),
                                    RealmID := RealmID token\<rparr>;
                         newToken2 =
                           (if RefreshToken newToken1 = ''''
                            then newToken1\<lparr>RefreshToken := RefreshToken token\<rparr>
                            else newToken1) in
                     case TokenStore_SaveToken e (tokenStore s) userID newToken2 w3 of
                       (Some err, w4) \<Rightarrow> (Inl (Wrapped ''failed to save refreshed token'' err), w4)
                     | (None, w4) \<Rightarrow> (Inr newToken2, w4)))))"

definition Service_GetValidToken ::
  "env \<Rightarrow> Service \<Rightarrow> string \<Rightarrow> world \<Rightarrow> (error + OAuthToken) \<times> world" where
  "Service_GetValidToken e s userID w =
     (case TokenStore_GetToken e (tokenStore s) userID w of
        (Inl err, w1) \<Rightarrow> (Inl (Wrapped ''failed to get token'' err), w1)
      | (Inr token, w1) \<Rightarrow>
          (case time_Until e (ExpiresAt token) w1 of
             (until, w2) \<Rightarrow>
               if until < 5 * Minute
               then (case Service_RefreshToken e s userID w2 of
                       (Inl err, w3) \<Rightarrow> (Inl (Wrapped ''failed to refresh token'' err), w3)
                     | (Inr token1, w3) \<Rightarrow> (Inr token1, w3))
               else (Inr token, w2)))"

definition revokeToken :: "env \<Rightarrow> Service \<Rightarrow> string \<Rightarrow> world \<Rightarrow> error option \<times> world" where
  "revokeToken e s token w =
     (case revokeEndpointAt e (tick w) of
        NewRequestFailed err \<Rightarrow> (Some (Wrapped ''failed to create revoke request'' err), advance w)
      | DoFailed err \<Rightarrow>
          (Some (Wrapped ''revoke request failed'' err), advance (emit (EvRevokeRequest token) w))
      | Responded status body \<Rightarrow>
          (let w1 = advance (emit (EvRevokeRequest token) w) in
           if status \<noteq> 200
           then (Some (StatusError ''revoke request failed with status'' status body), w1)
           else (None, w1)))"

definition Service_Disconnect :: "env \<Rightarrow> Service \<Rightarrow> string \<Rightarrow> world \<Rightarrow> error option \<times> world" where
  "Service_Disconnect e s userID w =
     (case TokenStore_GetToken e (tokenStore s) userID w of
        (Inl err, w1) \<Rightarrow> (Some (Wrapped ''failed to get token for revocation'' err), w1)
      | (Inr token, w1) \<Rightarrow>
          (case revokeToken e s (AccessToken token) w1 of
             (Some err, w2) \<Rightarrow> (Some err, w2)
           | (None, w2) \<Rightarrow>
               (case revokeToken e s (RefreshToken token) w2 of
                  (Some err, w3) \<Rightarrow> (Some err, w3)
                | (None, w3) \<Rightarrow> TokenStore_DeleteToken e (tokenStore s) userID w3)))"

section \<open>The callback handler (auth/handlers.go)\<close>

text \<open>
  The session values the handler reads, each after its type assertion (\<open>None\<close> when the
  value is missing or of another type), and the responses it writes.
\<close>

record session =
  qb_state :: "string option"
  qb_state_expiry :: "int option"

datatype response =
    HttpError nat string
  | HttpErrorWith nat string error
  | Success string

definition session_Save :: "env \<Rightarrow> world \<Rightarrow> error option \<times> world" where
  "session_Save e w = (sessionSaveAt e (tick w), advance w)"

text \<open>
  \<^verbatim>\<open>CallbackHandler\<close>, from the user id of the request's context and the query parameters
  \<^verbatim>\<open>code\<close>, \<^verbatim>\<open>state\<close> and \<^verbatim>\<open>realmId\<close>. The handler assigns \<^verbatim>\<open>token.RealmID\<close> through the
  pointer it got from \<^verbatim>\<open>HandleCallback\<close> and saves the token again at once, so the store
  ends with the same record as in this model by values.
\<close>

definition Handler_CallbackHandler ::
  "env \<Rightarrow> Service \<Rightarrow> string \<Rightarrow> string \<Rightarrow> string \<Rightarrow> string \<Rightarrow> session \<Rightarrow> world
     \<Rightarrow> response \<times> session \<times> world" where
  "Handler_CallbackHandler e s userID code state realmID sess w =
     (if userID = '''' then (HttpError 401 ''Unauthorized'', sess, w)
      else if code = '''' \<or> state = '''' then (HttpError 400 ''Invalid callback parameters'', sess, w)
      else if qb_state sess \<noteq> Some state then (HttpError 400 ''Invalid state parameter'', sess, w)
      else
        (case qb_state_expiry sess of
           None \<Rightarrow> (HttpError 400 ''State parameter expired'', sess, w)
         | Some expiry \<Rightarrow>
             (case time_Now e w of
                (now, w1) \<Rightarrow>
                  if now div Second > expiry
                  then (HttpError 400 ''State parameter expired'', sess, w1)
                  else
                    (let sess1 = sess\<lparr>qb_state := None, qb_state_expiry := None\<rparr> in
                     case session_Save e w1 of
                       (Some err, w2) \<Rightarrow> (HttpError 500 ''Failed to save session'', sess1, w2)
                     | (None, w2) \<Rightarrow>
                         (case Service_HandleCallback e s code state userID w2 of
                            (Inl err, w3) \<Rightarrow>
                              (HttpErrorWith 500 ''Failed to exchange code for token: '' err, sess1, w3)
                          | (Inr token, w3) \<Rightarrow>
                              if realmID \<noteq> ''''
                              then
                                (let token1 = token\<lparr>RealmID := realmID\<rparr> in
                                 case TokenStore_SaveToken e (tokenStore s) userID token1 w3 of
                                   (Some err, w4) \<Rightarrow>
                                     (HttpError 500 ''Failed to save token with realm ID'', sess1, w4)
                                 | (None, w4) \<Rightarrow> (Success (RealmID token1), sess1, w4))
                              else (Success (RealmID token), sess1, w3))))))"

section \<open>The health checker (infrastructure/redis/healthcheck.go)\<close>

text \<open>
  Modelled from the spec: the circuit breaker is the library github.com/sony/gobreaker,
  which is not under src/; of it the source has the settings only (in
  \<^verbatim>\<open>NewHealthChecker\<close>: the time-out of thirty seconds and the function that trips the
  breaker at three consecutive failures; \<^verbatim>\<open>MaxRequests\<close> and \<^verbatim>\<open>Interval\<close> are zero, the
  library's defaults). Section 4.1 of the specification gives its states: closed, where
  the consecutive failures are counted and the breaker opens when they are ready to trip
  it; open, where no request is let through until the cool-down has passed; half-open,
  where one trial request is let through, and its success closes the breaker and its
  failure opens it again.
\<close>

datatype breaker_state = StateClosed | StateHalfOpen | StateOpen

record Counts =
  ConsecutiveFailures :: nat

record Settings =
  Timeout :: int
  ReadyToTrip :: "Counts \<Rightarrow> bool"

record CircuitBreaker =
  settings :: Settings
  state :: breaker_state
  counts :: Counts
  expiry :: int

text \<open>Modelled from the spec: a new breaker is closed and has counted no failure.\<close>

definition NewCircuitBreaker :: "Settings \<Rightarrow> CircuitBreaker" where
  "NewCircuitBreaker st =
     \<lparr>settings = st, state = StateClosed, counts = \<lparr>ConsecutiveFailures = 0\<rparr>, expiry = 0\<rparr>"

text \<open>Modelled from the spec: the error with which an open breaker refuses a request.\<close>

definition ErrOpenState :: error where
  "ErrOpenState = Msg ''circuit breaker is open''"

text \<open>
  Modelled from the spec: before a request, an open breaker whose cool-down has passed
  becomes half-open; a breaker that is still open refuses the request.
\<close>

definition beforeRequest :: "int \<Rightarrow> CircuitBreaker \<Rightarrow> error option \<times> CircuitBreaker" where
  "beforeRequest now cb =
     (let cb1 = (if state cb = StateOpen \<and> expiry cb < now
                 then cb\<lparr>state := StateHalfOpen, counts := \<lparr>ConsecutiveFailures = 0\<rparr>\<rparr>
                 else cb) in
      if state cb1 = StateOpen then (Some ErrOpenState, cb1) else (None, cb1))"

text \<open>
  Modelled from the spec: after a request, a success closes a half-open breaker and resets
  the consecutive failures; a failure opens a half-open breaker, and opens a closed one
  when the failures counted are ready to trip it. An open breaker stays open for the
  time-out of the settings.
\<close>

definition afterRequest :: "int \<Rightarrow> bool \<Rightarrow> CircuitBreaker \<Rightarrow> CircuitBreaker" where
  "afterRequest now success cb =
     (if success
      then cb\<lparr>state := StateClosed, counts := \<lparr>ConsecutiveFailures = 0\<rparr>\<rparr>
      else
        (let c = \<lparr>ConsecutiveFailures = Suc (ConsecutiveFailures (counts cb))\<rparr> in
         if state cb = StateHalfOpen \<or> ReadyToTrip (settings cb) c
         then cb\<lparr>state := StateOpen, counts := \<lparr>ConsecutiveFailures = 0\<rparr>,
                 expiry := now + Timeout (settings cb)\<rparr>
         else cb\<lparr>counts := c\<rparr>))"

text \<open>
  Modelled from the spec: \<^verbatim>\<open>Execute\<close> runs the request only when the breaker lets it
  through. The request is a function on the state of the client it uses, so that a
  request that is not run leaves the client as it was.
\<close>

definition CircuitBreaker_Execute ::
  "int \<Rightarrow> ('c \<Rightarrow> (error + 'a) \<times> 'c) \<Rightarrow> 'c \<Rightarrow> CircuitBreaker \<Rightarrow> (error + 'a) \<times> 'c \<times> CircuitBreaker" where
  "CircuitBreaker_Execute now req c cb =
     (case beforeRequest now cb of
        (Some err, cb1) \<Rightarrow> (Inl err, c, cb1)
      | (None, cb1) \<Rightarrow>
          (case req c of
             (Inl err, c1) \<Rightarrow> (Inl err, c1, afterRequest now False cb1)
           | (Inr r, c1) \<Rightarrow> (Inr r, c1, afterRequest now True cb1)))"

text \<open>
  The checker. Its Redis client is the number of \<^verbatim>\<open>PING\<close> commands sent through it so
  far; the answer a \<^verbatim>\<open>PING\<close> gets is an input of \<^verbatim>\<open>Check\<close>, with the time of the call.
\<close>

record HealthChecker =
  client :: nat
  circuitBreaker :: CircuitBreaker
  status :: bool
  checkInterval :: int

definition NewHealthChecker :: "int \<Rightarrow> HealthChecker" where
  "NewHealthChecker interval =
     \<lparr>client = 0,
      circuitBreaker =
        NewCircuitBreaker
          \<lparr>Timeout = 30 * Second, ReadyToTrip = (\<lambda>c. ConsecutiveFailures c \<ge> 3)\<rparr>,
      status = False,
      checkInterval = interval\<rparr>"

definition IsHealthy :: "HealthChecker \<Rightarrow> bool" where
  "IsHealthy h = status h"

definition Ping :: "error + string \<Rightarrow> nat \<Rightarrow> (error + string) \<times> nat" where
  "Ping reply c = (reply, Suc c)"

definition Check :: "int \<Rightarrow> error + string \<Rightarrow> HealthChecker \<Rightarrow> bool \<times> HealthChecker" where
  "Check now reply h =
     (case CircuitBreaker_Execute now (Ping reply) (client h) (circuitBreaker h) of
        (result, c1, cb1) \<Rightarrow>
          (let isHealthy = (case result of Inl err \<Rightarrow> False | Inr r \<Rightarrow> r = ''PONG'') in
           (isHealthy, h\<lparr>client := c1, circuitBreaker := cb1, status := isHealthy\<rparr>)))"

text \<open>
  \<^verbatim>\<open>startPeriodicChecks\<close> calls \<^verbatim>\<open>Check\<close> at each firing of the ticker; the firings, each
  with its time and the answer a \<^verbatim>\<open>PING\<close> gets then, are the input.
\<close>

fun startPeriodicChecks :: "(int \<times> (error + string)) list \<Rightarrow> HealthChecker \<Rightarrow> HealthChecker" where
  "startPeriodicChecks [] h = h"
| "startPeriodicChecks ((now, reply) # rest) h = startPeriodicChecks rest (snd (Check now reply h))"

section \<open>Kinds of events\<close>

fun is_durable_write :: "event \<Rightarrow> bool" where
  "is_durable_write (EvRedisSet k v ttl) = True"
| "is_durable_write ev = False"

fun is_lock_event :: "event \<Rightarrow> bool" where
  "is_lock_event EvLock = True"
| "is_lock_event EvUnlock = True"
| "is_lock_event EvRLock = True"
| "is_lock_event EvRUnlock = True"
| "is_lock_event ev = False"

section \<open>Concrete inputs\<close>

text \<open>
  Records, environments and states on which the theorems below are run: a record stored
  for user \<open>u1\<close>, two answers of the token endpoint, an environment in which Redis is down
  and one in which it is up.
\<close>

definition tokOld :: OAuthToken where
  "tokOld = \<lparr>AccessToken = ''at-old'', RefreshToken = ''rt-old'', TokenType = ''bearer'',
             ExpiresIn = 3600, ExpiresAt = 0, RealmID = ''9991''\<rparr>"

definition tokUp :: OAuthToken where
  "tokUp = \<lparr>AccessToken = ''at-new'', RefreshToken = '''', TokenType = ''bearer'',
            ExpiresIn = 3600, ExpiresAt = 0, RealmID = ''''\<rparr>"

definition tokShort :: OAuthToken where
  "tokShort = \<lparr>AccessToken = ''at-new'', RefreshToken = ''rt-new'', TokenType = ''bearer'',
               ExpiresIn = 60, ExpiresAt = 0, RealmID = ''''\<rparr>"

definition envDown :: env where
  "envDown =
     \<lparr>healthAt = (\<lambda>n. False),
      redisSetAt = (\<lambda>n. Some (Msg ''connection refused'')),
      redisGetAt = (\<lambda>n. RedisGetError (Msg ''connection refused'')),
      redisDelAt = (\<lambda>n. Some (Msg ''connection refused'')),
      clockAt = (\<lambda>n. 1000),
      tokenEndpointAt = (\<lambda>n. Responded 200 ''{...}''),
      revokeEndpointAt = (\<lambda>n. Responded 200 ''''),
      sessionSaveAt = (\<lambda>n. None),
      jsonMarshal = (\<lambda>t. Inr ''{...}''),
      jsonUnmarshal = (\<lambda>d. Inr tokOld),
      jsonDecode = (\<lambda>d. Inr tokUp),
      urlQueryGet = (\<lambda>u k. '''')\<rparr>"

definition envUp :: env where
  "envUp =
     envDown\<lparr>healthAt := (\<lambda>n. True),
             redisSetAt := (\<lambda>n. None),
             redisGetAt := (\<lambda>n. RedisBytes ''{...}''),
             redisDelAt := (\<lambda>n. None)\<rparr>"

definition world0 :: world where
  "world0 = \<lparr>localCache = [], trace = [], tick = 0\<rparr>"

definition world1 :: world where
  "world1 = \<lparr>localCache = [(''u1'', tokOld)], trace = [], tick = 0\<rparr>"

definition cfg0 :: OAuthConfig where
  "cfg0 = \<lparr>ClientID = ''id'', ClientSecret = ''secret'', RedirectURI = ''https://app/callback'',
            Scopes = [''com.intuit.quickbooks.accounting''], AuthURL = ''https://auth'',
            TokenURL = ''https://token'', APIBaseURL = ''https://api''\<rparr>"

definition svcFallback :: Service where
  "svcFallback = \<lparr>config = cfg0, tokenStore = FallbackStore ''qb''\<rparr>"

definition svcRedis :: Service where
  "svcRedis = \<lparr>config = cfg0, tokenStore = RedisStore ''qb''\<rparr>"

definition tokNew :: OAuthToken where
  "tokNew = \<lparr>AccessToken = ''at-new'', RefreshToken = ''rt-old'', TokenType = ''bearer'',
             ExpiresIn = 3600, ExpiresAt = 3600000001000, RealmID = ''9991''\<rparr>"

definition tokFresh :: OAuthToken where
  "tokFresh = \<lparr>AccessToken = ''at-fresh'', RefreshToken = ''rt-fresh'', TokenType = ''bearer'',
               ExpiresIn = 3600, ExpiresAt = 3600000000000, RealmID = ''9991''\<rparr>"

text \<open>Redis answers reads but refuses writes, and still holds the old record.\<close>

definition envStale :: env where
  "envStale = envUp\<lparr>redisSetAt := (\<lambda>n. Some (Msg ''OOM command not allowed''))\<rparr>"

text \<open>The token endpoint answers with a token that lasts sixty seconds.\<close>

definition envShort :: env where
  "envShort = envDown\<lparr>jsonDecode := (\<lambda>d. Inr tokShort)\<rparr>"

text \<open>The revocation endpoint refuses.\<close>

definition envRevokeFails :: env where
  "envRevokeFails = envDown\<lparr>revokeEndpointAt := (\<lambda>n. Responded 500 ''error'')\<rparr>"

definition worldFresh :: world where
  "worldFresh = \<lparr>localCache = [(''u1'', tokFresh)], trace = [], tick = 0\<rparr>"

text \<open>The state after the record of \<open>u1\<close> was read from the cache, Redis being down.\<close>

definition world1Loaded :: world where
  "world1Loaded =
     \<lparr>localCache = [(''u1'', tokOld)], trace = [EvHealthCheck False, EvRLock, EvRUnlock],
      tick = 1\<rparr>"

definition refreshForm :: "(string \<times> string) list" where
  "refreshForm = [(''grant_type'', ''refresh_token''), (''refresh_token'', ''rt-old'')]"

definition world1Asked :: world where
  "world1Asked =
     \<lparr>localCache = [(''u1'', tokOld)],
      trace = [EvHealthCheck False, EvRLock, EvRUnlock, EvTokenRequest refreshForm],
      tick = 2\<rparr>"

definition sess0 :: session where
  "sess0 = \<lparr>qb_state = Some ''xyz'', qb_state_expiry = Some 600\<rparr>"

text \<open>A checker whose first three probes, thirty seconds apart, all failed.\<close>

definition hTripped :: HealthChecker where
  "hTripped =
     startPeriodicChecks
       [(0, Inl (Msg ''timeout'')), (30 * Second, Inl (Msg ''timeout'')),
        (60 * Second, Inl (Msg ''timeout''))]
       (NewHealthChecker (30 * Second))"

text \<open>A token that cannot be marshalled.\<close>

definition envNoMarshal :: env where
  "envNoMarshal = envUp\<lparr>jsonMarshal := (\<lambda>t. Inl (Msg ''unsupported value''))\<rparr>"

text \<open>
  The revocation endpoint accepts the first revocation of a disconnect (the second
  interaction of the run, after the health check) and refuses the next.
\<close>

definition envSecondRevokeFails :: env where
  "envSecondRevokeFails =
     envDown\<lparr>revokeEndpointAt := (\<lambda>n. if n = 1 then Responded 200 '''' else Responded 500 ''error'')\<rparr>"

text \<open>
  A cache with two records, and two environments in which Redis is healthy and one
  \<^verbatim>\<open>SET\<close> of a replication pass fails: that of the first record (the third interaction of
  the pass, after the health check and a reading of the clock), or that of the second (the
  fifth).
\<close>

definition world2 :: world where
  "world2 = \<lparr>localCache = [(''u1'', tokOld), (''u2'', tokFresh)], trace = [], tick = 0\<rparr>"

definition envFirstSetFails :: env where
  "envFirstSetFails =
     envUp\<lparr>redisSetAt := (\<lambda>n. if n = 2 then Some (Msg ''i/o timeout'') else None)\<rparr>"

definition envSecondSetFails :: env where
  "envSecondSetFails =
     envUp\<lparr>redisSetAt := (\<lambda>n. if n = 4 then Some (Msg ''i/o timeout'') else None)\<rparr>"

text \<open>Redis up, the data of a record showing its realm id.\<close>

definition envUpRealm :: env where
  "envUpRealm = envUp\<lparr>jsonMarshal := (\<lambda>t. Inr (''realm='' @ RealmID t))\<rparr>"

section \<open>Unfolding the definitions\<close>

text \<open>
  The equations by which the concrete runs below are computed, and the effect of the
  primitive steps on the three fields of the state.
\<close>

lemmas prim_defs = healthCheck_def redis_Get_def redis_Set_def redis_Del_def emit_def advance_def
  time_Until_def time_Now_def cache_store_def cache_delete_def

lemmas input_defs = tokOld_def tokUp_def tokShort_def envDown_def envUp_def world0_def world1_def
  cfg0_def svcFallback_def svcRedis_def

lemmas input_defs2 = tokNew_def tokFresh_def envStale_def envShort_def envRevokeFails_def
  envNoMarshal_def envSecondRevokeFails_def world2_def envFirstSetFails_def envSecondSetFails_def
  envUpRealm_def
  worldFresh_def world1Loaded_def refreshForm_def world1Asked_def sess0_def hTripped_def

lemmas run_defs = FallbackTokenStore_GetToken_def FallbackTokenStore_SaveToken_def
  FallbackTokenStore_DeleteToken_def
  RedisTokenStore_GetToken_def RedisTokenStore_SaveToken_def RedisTokenStore_DeleteToken_def
  cache_lookup_def cache_store_def cache_delete_def
  healthCheck_def redis_Get_def redis_Set_def redis_Del_def emit_def advance_def
  time_Until_def time_Now_def Let_def key_def notFound_def

lemmas service_defs = executeTokenRequest_def Service_HandleCallback_def Service_RefreshToken_def
  Service_GetValidToken_def revokeToken_def Service_Disconnect_def Handler_CallbackHandler_def
  session_Save_def

lemmas time_defs = Second_def Minute_def Hour_def wrap64_def sat64_def

lemmas all_defs = input_defs input_defs2 run_defs time_defs service_defs

lemmas health_defs = Check_def CircuitBreaker_Execute_def beforeRequest_def afterRequest_def
  Ping_def IsHealthy_def NewHealthChecker_def NewCircuitBreaker_def

lemma emit_simps [simp]:
  "trace (emit ev w) = trace w @ [ev]" "tick (emit ev w) = tick w"
  "localCache (emit ev w) = localCache w"
  by (simp_all add: emit_def)

lemma advance_simps [simp]:
  "trace (advance w) = trace w" "tick (advance w) = Suc (tick w)"
  "localCache (advance w) = localCache w"
  by (simp_all add: advance_def)

lemma cache_store_simps [simp]:
  "trace (cache_store u t w) = trace w" "tick (cache_store u t w) = tick w"
  "localCache (cache_store u t w) = AList.update u t (localCache w)"
  by (simp_all add: cache_store_def)

lemma cache_delete_simps [simp]:
  "trace (cache_delete u w) = trace w" "tick (cache_delete u w) = tick w"
  "localCache (cache_delete u w) = AList.delete u (localCache w)"
  by (simp_all add: cache_delete_def)

lemma healthCheck_simps [simp]:
  "fst (healthCheck e w) = healthAt e (tick w)"
  "snd (healthCheck e w) = advance (emit (EvHealthCheck (healthAt e (tick w))) w)"
  by (simp_all add: healthCheck_def Let_def)

section \<open>The stores\<close>

lemma Redis_get_world:
  "snd (RedisTokenStore_GetToken e prefix userID w) = advance (emit (EvRedisGet (key prefix userID)) w)"
  by (simp add: RedisTokenStore_GetToken_def redis_Get_def split: redis_get_reply.splits sum.splits)

lemma Redis_get_trace:
  "trace (snd (RedisTokenStore_GetToken e p u w)) = trace w @ [EvRedisGet (key p u)]"
  by (simp add: Redis_get_world)

lemma Redis_save_cache:
  "localCache (snd (RedisTokenStore_SaveToken e prefix userID token w)) = localCache w"
  by (simp add: RedisTokenStore_SaveToken_def prim_defs split: sum.splits option.splits)

lemma Redis_save_cache_eq:
  "RedisTokenStore_SaveToken e p u t w = (r, w1) \<Longrightarrow> localCache w1 = localCache w"
  using Redis_save_cache[of e p u t w] by simp

lemma Redis_save_trace:
  "trace (snd (RedisTokenStore_SaveToken e prefix userID token w)) =
     trace w @ (case jsonMarshal e token of
                  Inl err \<Rightarrow> []
                | Inr data \<Rightarrow>
                    [EvRedisSet (key prefix userID) data
                       (wrap64 (sat64 (ExpiresAt token - clockAt e (tick w)) + 24 * Hour))])"
  by (simp add: RedisTokenStore_SaveToken_def prim_defs split: sum.splits option.splits)

lemma Redis_save_extends:
  "\<exists>evs. trace (snd (RedisTokenStore_SaveToken e p u t w)) = trace w @ evs"
  using Redis_save_trace[of e p u t w] by blast

lemma Redis_save_ok:
  assumes "RedisTokenStore_SaveToken e p u t w = (None, w')"
  shows "\<exists>d ttl. jsonMarshal e t = Inr d \<and> EvRedisSet (key p u) d ttl \<in> set (trace w')"
  using assms
  by (auto simp: RedisTokenStore_SaveToken_def redis_Set_def time_Until_def time_Now_def
        split: sum.splits option.splits)

lemma Redis_save_ok_last:
  assumes "RedisTokenStore_SaveToken e p u t w = (None, w')"
  shows "\<exists>d ttl. jsonMarshal e t = Inr d \<and> trace w' = trace w @ [EvRedisSet (key p u) d ttl]"
  using assms
  by (auto simp: RedisTokenStore_SaveToken_def redis_Set_def time_Until_def time_Now_def
        split: sum.splits option.splits)

lemma Redis_save_result:
  "fst (RedisTokenStore_SaveToken e p u t w) =
     (case jsonMarshal e t of
        Inl err \<Rightarrow> Some (Wrapped ''failed to marshal token'' err)
      | Inr d \<Rightarrow>
          (case redisSetAt e (Suc (tick w)) of
             Some err \<Rightarrow> Some (Wrapped ''failed to save token'' err)
           | None \<Rightarrow> None))"
  by (simp add: RedisTokenStore_SaveToken_def redis_Set_def time_Until_def time_Now_def
        split: sum.splits option.splits)

lemma Fallback_save_result:
  "fst (FallbackTokenStore_SaveToken e prefix userID token w) = None"
  by (simp add: FallbackTokenStore_SaveToken_def healthCheck_def Let_def split: prod.splits option.splits bool.splits)

lemma Fallback_save_cache:
  "localCache (snd (FallbackTokenStore_SaveToken e prefix userID token w)) =
     AList.update userID token (localCache w)"
proof -
  let ?w1 = "advance (emit (EvHealthCheck (healthAt e (tick w)))
               (emit EvUnlock (cache_store userID token (emit EvLock w))))"
  have "localCache (snd (RedisTokenStore_SaveToken e prefix userID token ?w1)) = localCache ?w1"
    by (rule Redis_save_cache)
  then show ?thesis
    by (cases "RedisTokenStore_SaveToken e prefix userID token ?w1")
       (auto simp: FallbackTokenStore_SaveToken_def healthCheck_def Let_def
          split: option.splits bool.splits)
qed



lemma Fallback_save_eq:
  assumes "FallbackTokenStore_SaveToken e p u t w = (r, w')"
  shows "r = None \<and> map_of (localCache w') u = Some t"
  using Fallback_save_result[of e p u t w] Fallback_save_cache[of e p u t w] assms
  by (simp add: update_conv')

lemma cache_lookup_result:
  "fst (cache_lookup userID w) =
     (case map_of (localCache w) userID of Some t \<Rightarrow> Inr t | None \<Rightarrow> Inl notFound)"
  by (simp add: cache_lookup_def Let_def emit_def split: option.splits)

lemma cache_lookup_world:
  "snd (cache_lookup userID w) = emit EvRUnlock (emit EvRLock w)"
  by (simp add: cache_lookup_def Let_def emit_def split: option.splits)

text \<open>
  The three ways through \<^verbatim>\<open>GetToken\<close> of the fallback store: Redis healthy and the read
  succeeds, Redis unhealthy, Redis healthy and the read fails.
\<close>

lemma Fallback_get_durable:
  assumes "healthAt e (tick w)"
    and "fst (RedisTokenStore_GetToken e prefix userID (snd (healthCheck e w))) = Inr t"
  shows "FallbackTokenStore_GetToken e prefix userID w =
     (Inr t, emit EvUnlock (cache_store userID t (emit EvLock
        (advance (emit (EvRedisGet (key prefix userID)) (snd (healthCheck e w)))))))"
  using assms Redis_get_world[of e prefix userID "snd (healthCheck e w)"]
  by (cases "RedisTokenStore_GetToken e prefix userID (snd (healthCheck e w))")
     (simp add: FallbackTokenStore_GetToken_def healthCheck_def Let_def)

lemma Fallback_get_untrusted:
  assumes "\<not> healthAt e (tick w)"
  shows "FallbackTokenStore_GetToken e prefix userID w = cache_lookup userID (snd (healthCheck e w))"
  using assms by (simp add: FallbackTokenStore_GetToken_def healthCheck_def Let_def)

lemma Fallback_get_durable_failed:
  assumes "healthAt e (tick w)"
    and "fst (RedisTokenStore_GetToken e prefix userID (snd (healthCheck e w))) = Inl err"
  shows "FallbackTokenStore_GetToken e prefix userID w =
     cache_lookup userID (emit (EvLog ''Warning: Failed to get token from Redis'' err)
        (advance (emit (EvRedisGet (key prefix userID)) (snd (healthCheck e w)))))"
  using assms Redis_get_world[of e prefix userID "snd (healthCheck e w)"]
  by (cases "RedisTokenStore_GetToken e prefix userID (snd (healthCheck e w))")
     (simp add: FallbackTokenStore_GetToken_def healthCheck_def Let_def)

lemma Fallback_get_fallback:
  assumes "\<not> (healthAt e (tick w) \<and>
      (\<exists>t. fst (RedisTokenStore_GetToken e prefix userID (snd (healthCheck e w))) = Inr t))"
  shows "fst (FallbackTokenStore_GetToken e prefix userID w) =
       (case map_of (localCache w) userID of Some t \<Rightarrow> Inr t | None \<Rightarrow> Inl notFound) \<and>
     localCache (snd (FallbackTokenStore_GetToken e prefix userID w)) = localCache w"
proof (cases "healthAt e (tick w)")
  case False
  then show ?thesis
    by (simp add: Fallback_get_untrusted cache_lookup_result cache_lookup_world prim_defs Let_def)
next
  case True
  with assms obtain err where
    "fst (RedisTokenStore_GetToken e prefix userID (snd (healthCheck e w))) = Inl err"
    by (cases "fst (RedisTokenStore_GetToken e prefix userID (snd (healthCheck e w)))") auto
  with True show ?thesis
    by (simp add: Fallback_get_durable_failed cache_lookup_result cache_lookup_world prim_defs Let_def)
qed

lemma Fallback_get_cached:
  assumes "FallbackTokenStore_GetToken e p u w = (Inr t, w1)"
  shows "map_of (localCache w1) u = Some t"
proof (cases "healthAt e (tick w) \<and>
    (\<exists>t. fst (RedisTokenStore_GetToken e p u (snd (healthCheck e w))) = Inr t)")
  case True
  then obtain t' where h: "healthAt e (tick w)"
    and d: "fst (RedisTokenStore_GetToken e p u (snd (healthCheck e w))) = Inr t'" by blast
  from Fallback_get_durable[OF h d] assms show ?thesis
    by (auto simp: update_conv')
next
  case False
  from Fallback_get_fallback[OF False] assms show ?thesis
    by (auto split: option.splits)
qed

lemma Fallback_get_present:
  assumes "map_of (localCache w) u = Some t"
  shows "\<exists>t'. fst (FallbackTokenStore_GetToken e p u w) = Inr t'"
proof (cases "healthAt e (tick w) \<and>
    (\<exists>t. fst (RedisTokenStore_GetToken e p u (snd (healthCheck e w))) = Inr t)")
  case True
  then obtain t' where h: "healthAt e (tick w)"
    and d: "fst (RedisTokenStore_GetToken e p u (snd (healthCheck e w))) = Inr t'" by blast
  from Fallback_get_durable[OF h d] show ?thesis by simp
next
  case False
  from Fallback_get_fallback[OF False] assms show ?thesis by simp
qed


lemma Fallback_get_no_delete:
  "EvRedisDel k \<in> set (trace (snd (FallbackTokenStore_GetToken e p u w))) \<Longrightarrow>
     EvRedisDel k \<in> set (trace w)"
proof -
  assume a: "EvRedisDel k \<in> set (trace (snd (FallbackTokenStore_GetToken e p u w)))"
  show ?thesis
  proof (cases "healthAt e (tick w)")
    case False
    with a show ?thesis by (simp add: Fallback_get_untrusted cache_lookup_world)
  next
    case True
    show ?thesis
    proof (cases "fst (RedisTokenStore_GetToken e p u (snd (healthCheck e w)))")
      case (Inl err)
      with a True show ?thesis
        by (simp add: Fallback_get_durable_failed cache_lookup_world)
    next
      case (Inr t)
      with a True show ?thesis
        by (simp add: Fallback_get_durable)
    qed
  qed
qed


lemma TokenStore_get_no_delete:
  "EvRedisDel k \<in> set (trace (snd (TokenStore_GetToken e st u w))) \<Longrightarrow>
     EvRedisDel k \<in> set (trace w)"
  by (cases st) (auto simp: Redis_get_trace dest: Fallback_get_no_delete)


lemma TokenStore_save_ok:
  assumes "TokenStore_SaveToken e st u t w = (None, w')"
  shows "(\<forall>p. st = FallbackStore p \<longrightarrow> map_of (localCache w') u = Some t) \<and>
         (\<forall>p. st = RedisStore p \<longrightarrow>
            (\<exists>d ttl. jsonMarshal e t = Inr d \<and> EvRedisSet (key p u) d ttl \<in> set (trace w')))"
  using assms by (cases st) (auto dest!: Redis_save_ok dest: Fallback_save_eq)

subsection \<open>Reading through the fallback store\<close>

text \<open>
  Claim C2. For every user id, environment and state, \<^verbatim>\<open>GetToken\<close> of the fallback store
  behaves as follows. When the health check reports Redis healthy, the Redis read is the
  first thing attempted after the check, and when it succeeds its value replaces the cache
  entry of the user and is returned. When Redis is unhealthy or the read fails, the cache
  is left as it was and the cached value is returned if there is one. An error is returned
  exactly when the Redis path did not succeed and the cache has no entry for the user, and
  the error is then the store's own not-found error, whatever error Redis gave.
\<close>

theorem C2_get:
  "let trusted = healthAt e (tick w);
       durable = fst (RedisTokenStore_GetToken e prefix userID (snd (healthCheck e w)));
       cached = map_of (localCache w) userID;
       res = fst (FallbackTokenStore_GetToken e prefix userID w);
       w' = snd (FallbackTokenStore_GetToken e prefix userID w)
   in (trusted \<longrightarrow> (\<exists>evs. trace w' = trace w @ EvHealthCheck True # EvRedisGet (key prefix userID) # evs)) \<and>
      (\<not> trusted \<longrightarrow> trace w' = trace w @ [EvHealthCheck False, EvRLock, EvRUnlock]) \<and>
      (\<forall>t. trusted \<and> durable = Inr t \<longrightarrow> res = Inr t \<and> map_of (localCache w') userID = Some t) \<and>
      (\<not> (trusted \<and> (\<exists>t. durable = Inr t)) \<longrightarrow>
         res = (case cached of Some t \<Rightarrow> Inr t | None \<Rightarrow> Inl notFound) \<and> localCache w' = localCache w) \<and>
      ((\<exists>err. res = Inl err) \<longleftrightarrow> \<not> (trusted \<and> (\<exists>t. durable = Inr t)) \<and> cached = None) \<and>
      (\<forall>err. res = Inl err \<longrightarrow> err = notFound)"
proof -
  let ?d = "fst (RedisTokenStore_GetToken e prefix userID (snd (healthCheck e w)))"
  let ?g = "FallbackTokenStore_GetToken e prefix userID w"
  have a: "\<exists>evs. trace (snd ?g) = trace w @ EvHealthCheck True # EvRedisGet (key prefix userID) # evs"
    if "healthAt e (tick w)"
  proof (cases ?d)
    case (Inl err)
    show ?thesis
      by (simp add: Fallback_get_durable_failed[OF that Inl] cache_lookup_world prim_defs that)
  next
    case (Inr t)
    show ?thesis
      by (simp add: Fallback_get_durable[OF that Inr] prim_defs that)
  qed
  have b: "trace (snd ?g) = trace w @ [EvHealthCheck False, EvRLock, EvRUnlock]"
    if "\<not> healthAt e (tick w)"
    by (simp add: Fallback_get_untrusted[OF that] cache_lookup_world prim_defs that)
  have c: "fst ?g = Inr t \<and> map_of (localCache (snd ?g)) userID = Some t"
    if "healthAt e (tick w)" "?d = Inr t" for t
    by (simp add: Fallback_get_durable[OF that] prim_defs update_conv')
  note d = Fallback_get_fallback[of e w prefix userID]
  show ?thesis
    unfolding Let_def
    apply (intro conjI)
    subgoal using a by blast
    subgoal using b by blast
    subgoal using c by blast
    subgoal using d by blast
    subgoal using c d by (cases "healthAt e (tick w) \<and> (\<exists>t. ?d = Inr t)") (auto split: option.splits)
    subgoal using c d by (cases "healthAt e (tick w) \<and> (\<exists>t. ?d = Inr t)") (auto split: option.splits)
    done
qed

text \<open>
  The theorem at work: Redis up and holding the record of \<open>u1\<close>, the cache empty; Redis
  down, the record in the cache; Redis down, nothing in the cache for \<open>u2\<close>.
\<close>

theorem C2_get_witness:
  "healthAt envUp (tick world0) \<and>
   fst (FallbackTokenStore_GetToken envUp ''qb'' ''u1'' world0) = Inr tokOld \<and>
   map_of (localCache (snd (FallbackTokenStore_GetToken envUp ''qb'' ''u1'' world0))) ''u1'' = Some tokOld \<and>
   \<not> healthAt envDown (tick world1) \<and>
   fst (FallbackTokenStore_GetToken envDown ''qb'' ''u1'' world1) = Inr tokOld \<and>
   fst (FallbackTokenStore_GetToken envDown ''qb'' ''u2'' world1) = Inl notFound"
  using C2_get[of envUp world0 "''qb''" "''u1''"] C2_get[of envDown world1 "''qb''" "''u1''"]
    C2_get[of envDown world1 "''qb''" "''u2''"]
  by (simp add: input_defs run_defs)

subsection \<open>Writing through the fallback store\<close>




subsection \<open>The replication pass\<close>

lemma replicate_tokens_Cons:
  "replicate_tokens e p (x # rest) w = replicate_tokens e p rest (replicate_tokens e p [x] w)"
  by (cases x) (simp split: prod.splits option.splits)

lemma replicate_tokens_append:
  "replicate_tokens e p (xs @ ys) w = replicate_tokens e p ys (replicate_tokens e p xs w)"
  by (induction xs arbitrary: w) (auto split: prod.splits option.splits)

lemma replicate_one_trace:
  "trace (replicate_tokens e p [(u, t)] w) =
     trace w @
     (case jsonMarshal e t of
        Inl err \<Rightarrow> [EvLog (''Replication error for user '' @ u) (Wrapped ''failed to marshal token'' err)]
      | Inr d \<Rightarrow>
          EvRedisSet (key p u) d (wrap64 (sat64 (ExpiresAt t - clockAt e (tick w)) + 24 * Hour)) #
          (case redisSetAt e (Suc (tick w)) of
             Some err \<Rightarrow> [EvLog (''Replication error for user '' @ u) (Wrapped ''failed to save token'' err)]
           | None \<Rightarrow> []))"
  by (simp add: RedisTokenStore_SaveToken_def redis_Set_def time_Until_def time_Now_def
        split: sum.splits option.splits)

lemma replicate_tokens_cache:
  "localCache (replicate_tokens e p xs w) = localCache w"
  by (induction xs arbitrary: w)
     (auto split: option.splits prod.splits dest: Redis_save_cache_eq)

lemma replicate_tokens_events:
  "\<exists>evs. trace (replicate_tokens e p xs w) = trace w @ evs \<and>
      (\<forall>ev \<in> set evs. \<not> is_lock_event ev) \<and>
      length (filter is_durable_write evs) =
        length (filter (\<lambda>(u, t). \<exists>d. jsonMarshal e t = Inr d) xs) \<and>
      (\<forall>(u, t) \<in> set xs. \<forall>d. jsonMarshal e t = Inr d \<longrightarrow>
          (\<exists>ttl. EvRedisSet (key p u) d ttl \<in> set evs)) \<and>
      (\<forall>(u, t) \<in> set xs. \<forall>err. jsonMarshal e t = Inl err \<longrightarrow>
          EvLog (''Replication error for user '' @ u) (Wrapped ''failed to marshal token'' err) \<in> set evs) \<and>
      ((\<forall>n. redisSetAt e n \<noteq> None) \<longrightarrow>
         (\<forall>(u, t) \<in> set xs. \<exists>err. EvLog (''Replication error for user '' @ u) err \<in> set evs))"
proof (induction xs arbitrary: w)
  case Nil
  then show ?case by simp
next
  case (Cons x xs)
  obtain u t where x: "x = (u, t)" by (cases x)
  define w1 where "w1 = replicate_tokens e p [(u, t)] w"
  obtain evs1 where evs1: "trace w1 = trace w @ evs1"
    and evs1_def: "evs1 = (case jsonMarshal e t of
        Inl err \<Rightarrow> [EvLog (''Replication error for user '' @ u) (Wrapped ''failed to marshal token'' err)]
      | Inr d \<Rightarrow>
          EvRedisSet (key p u) d (wrap64 (sat64 (ExpiresAt t - clockAt e (tick w)) + 24 * Hour)) #
          (case redisSetAt e (Suc (tick w)) of
             Some err \<Rightarrow> [EvLog (''Replication error for user '' @ u) (Wrapped ''failed to save token'' err)]
           | None \<Rightarrow> []))"
    using replicate_one_trace[of e p u t w] unfolding w1_def by blast
  from Cons.IH[of w1] obtain evs where
    tr: "trace (replicate_tokens e p xs w1) = trace w1 @ evs"
    and nl: "\<forall>ev \<in> set evs. \<not> is_lock_event ev"
    and cnt: "length (filter is_durable_write evs) =
        length (filter (\<lambda>(u, t). \<exists>d. jsonMarshal e t = Inr d) xs)"
    and sets: "\<forall>(u, t) \<in> set xs. \<forall>d. jsonMarshal e t = Inr d \<longrightarrow>
          (\<exists>ttl. EvRedisSet (key p u) d ttl \<in> set evs)"
    and mlog: "\<forall>(u, t) \<in> set xs. \<forall>err. jsonMarshal e t = Inl err \<longrightarrow>
          EvLog (''Replication error for user '' @ u) (Wrapped ''failed to marshal token'' err) \<in> set evs"
    and flog: "(\<forall>n. redisSetAt e n \<noteq> None) \<longrightarrow>
         (\<forall>(u, t) \<in> set xs. \<exists>err. EvLog (''Replication error for user '' @ u) err \<in> set evs)"
    by blast
  have a: "trace (replicate_tokens e p (x # xs) w) = trace w @ (evs1 @ evs)"
    using tr evs1 replicate_tokens_Cons[of e p "(u, t)" xs w] by (simp only: x w1_def append_assoc)
  have b: "\<forall>ev \<in> set (evs1 @ evs). \<not> is_lock_event ev"
    using nl by (auto simp: evs1_def split: sum.splits option.splits)
  have c: "length (filter is_durable_write (evs1 @ evs)) =
        length (filter (\<lambda>(u, t). \<exists>d. jsonMarshal e t = Inr d) (x # xs))"
    using cnt by (auto simp: evs1_def x split: sum.splits option.splits)
  have d: "\<forall>(u, t) \<in> set (x # xs). \<forall>d. jsonMarshal e t = Inr d \<longrightarrow>
          (\<exists>ttl. EvRedisSet (key p u) d ttl \<in> set (evs1 @ evs))"
    using sets by (fastforce simp: evs1_def x split: sum.splits option.splits)
  have m: "\<forall>(u, t) \<in> set (x # xs). \<forall>err. jsonMarshal e t = Inl err \<longrightarrow>
          EvLog (''Replication error for user '' @ u) (Wrapped ''failed to marshal token'' err) \<in> set (evs1 @ evs)"
    using mlog by (auto simp: evs1_def x split: sum.splits option.splits)
  have f: "(\<forall>n. redisSetAt e n \<noteq> None) \<longrightarrow>
         (\<forall>(u, t) \<in> set (x # xs). \<exists>err. EvLog (''Replication error for user '' @ u) err \<in> set (evs1 @ evs))"
  proof
    assume all: "\<forall>n. redisSetAt e n \<noteq> None"
    then have "redisSetAt e (Suc (tick w)) \<noteq> None" by blast
    then obtain err0 where "redisSetAt e (Suc (tick w)) = Some err0" by blast
    then have "\<exists>err. EvLog (''Replication error for user '' @ u) err \<in> set evs1"
      by (auto simp: evs1_def split: sum.splits)
    with flog all show "\<forall>(u, t) \<in> set (x # xs). \<exists>err. EvLog (''Replication error for user '' @ u) err \<in> set (evs1 @ evs)"
      by (auto simp: x)
  qed
  show ?case
    apply (rule exI[of _ "evs1 @ evs"])
    using a b c d m f by blast
qed

lemma replicate_one_failed:
  assumes "fst (RedisTokenStore_SaveToken e p u t w) = Some err"
  shows "\<exists>evs. trace (replicate_tokens e p [(u, t)] w) =
           trace w @ evs @ [EvLog (''Replication error for user '' @ u) err]"
proof -
  obtain r w1 where s: "RedisTokenStore_SaveToken e p u t w = (r, w1)"
    by (cases "RedisTokenStore_SaveToken e p u t w")
  with assms have r: "r = Some err" by simp
  from Redis_save_extends[of e p u t w] s obtain evs where "trace w1 = trace w @ evs" by auto
  then have "trace (replicate_tokens e p [(u, t)] w) =
           trace w @ evs @ [EvLog (''Replication error for user '' @ u) err]"
    using s r by simp
  then show ?thesis by blast
qed

lemma replicate_tokens_failure_logged:
  assumes fail: "fst (RedisTokenStore_SaveToken e p u t (replicate_tokens e p pre w)) = Some err"
  shows "\<exists>before after.
      trace (replicate_tokens e p (pre @ (u, t) # post) w) =
        trace w @ before @ EvLog (''Replication error for user '' @ u) err # after \<and>
      length (filter is_durable_write after) =
        length (filter (\<lambda>(u, t). \<exists>d. jsonMarshal e t = Inr d) post) \<and>
      (\<forall>(u', t') \<in> set post. \<forall>d. jsonMarshal e t' = Inr d \<longrightarrow>
          (\<exists>ttl. EvRedisSet (key p u') d ttl \<in> set after))"
proof -
  define wi where "wi = replicate_tokens e p pre w"
  define w1 where "w1 = replicate_tokens e p [(u, t)] wi"
  have split: "replicate_tokens e p (pre @ (u, t) # post) w = replicate_tokens e p post w1"
    unfolding w1_def wi_def
    using replicate_tokens_append[of e p pre "(u, t) # post" w]
      replicate_tokens_Cons[of e p "(u, t)" post "replicate_tokens e p pre w"]
    by (simp only:)
  from replicate_tokens_events[of e p pre w] obtain evs0 where
    t0: "trace wi = trace w @ evs0" unfolding wi_def by blast
  from replicate_one_failed[OF fail[folded wi_def]] obtain evs1 where
    t1: "trace w1 = trace wi @ evs1 @ [EvLog (''Replication error for user '' @ u) err]"
    unfolding w1_def by blast
  from replicate_tokens_events[of e p post w1] obtain after where
    t2: "trace (replicate_tokens e p post w1) = trace w1 @ after"
    and cnt: "length (filter is_durable_write after) =
        length (filter (\<lambda>(u, t). \<exists>d. jsonMarshal e t = Inr d) post)"
    and sets: "\<forall>(u', t') \<in> set post. \<forall>d. jsonMarshal e t' = Inr d \<longrightarrow>
          (\<exists>ttl. EvRedisSet (key p u') d ttl \<in> set after)"
    by blast
  have tr: "trace (replicate_tokens e p (pre @ (u, t) # post) w) =
        trace w @ (evs0 @ evs1) @ EvLog (''Replication error for user '' @ u) err # after"
    using split t0 t1 t2 by simp
  show ?thesis
    using tr cnt sets by blast
qed

text \<open>
  Claim C9. A replication pass that finds Redis unhealthy does nothing but the health
  check: no Redis command is sent. A pass that finds Redis healthy takes and releases the
  read lock, the copy of the whole cache being made in between, and only then, outside the
  lock, saves the entries to Redis: for every entry of the cache that can be marshalled a
  \<^verbatim>\<open>SET\<close> of its key and data is sent, there are exactly as many \<^verbatim>\<open>SET\<close> commands as
  entries that can be marshalled, whatever Redis answers to them, an entry that cannot be
  marshalled is logged, and when every \<^verbatim>\<open>SET\<close> fails every entry is logged. The cache
  itself is not changed by a pass.

  A failure at one entry, whatever becomes of the others: take any entry of the cache,
  with the entries before it and those after it, and let its save fail when its turn
  comes, the entries before it having been saved or not. Then its line is in the log, and
  after that line every remaining entry is still attempted: a \<^verbatim>\<open>SET\<close> is sent for each
  remaining entry that can be marshalled, as many as there are. The last part says when a
  save fails: the record cannot be marshalled, or the \<^verbatim>\<open>SET\<close>, the second interaction of
  the save after the reading of the clock, is answered with an error.
\<close>

theorem C9_replication_pass:
  "let trusted = healthAt e (tick w); w' = replication_pass e prefix w;
       w3 = emit EvRUnlock (emit EvRLock (advance (emit (EvHealthCheck True) w))) in
     localCache w' = localCache w \<and>
     (\<not> trusted \<longrightarrow> trace w' = trace w @ [EvHealthCheck False]) \<and>
     (trusted \<longrightarrow>
        (\<exists>evs. trace w' = trace w @ [EvHealthCheck True, EvRLock, EvRUnlock] @ evs \<and>
           (\<forall>ev \<in> set evs. \<not> is_lock_event ev) \<and>
           length (filter is_durable_write evs) =
             length (filter (\<lambda>(u, t). \<exists>d. jsonMarshal e t = Inr d) (localCache w)) \<and>
           (\<forall>(u, t) \<in> set (localCache w). \<forall>d. jsonMarshal e t = Inr d \<longrightarrow>
               (\<exists>ttl. EvRedisSet (key prefix u) d ttl \<in> set evs)) \<and>
           (\<forall>(u, t) \<in> set (localCache w). \<forall>err. jsonMarshal e t = Inl err \<longrightarrow>
               EvLog (''Replication error for user '' @ u) (Wrapped ''failed to marshal token'' err)
                 \<in> set evs) \<and>
           ((\<forall>n. redisSetAt e n \<noteq> None) \<longrightarrow>
              (\<forall>(u, t) \<in> set (localCache w).
                  \<exists>err. EvLog (''Replication error for user '' @ u) err \<in> set evs)) \<and>
           (\<forall>pre u t post err.
              localCache w = pre @ (u, t) # post \<and>
              fst (RedisTokenStore_SaveToken e prefix u t (replicate_tokens e prefix pre w3))
                = Some err \<longrightarrow>
              (\<exists>before after.
                 evs = before @ EvLog (''Replication error for user '' @ u) err # after \<and>
                 length (filter is_durable_write after) =
                   length (filter (\<lambda>(u, t). \<exists>d. jsonMarshal e t = Inr d) post) \<and>
                 (\<forall>(u', t') \<in> set post. \<forall>d. jsonMarshal e t' = Inr d \<longrightarrow>
                     (\<exists>ttl. EvRedisSet (key prefix u') d ttl \<in> set after)))))) \<and>
     (\<forall>u t w0. fst (RedisTokenStore_SaveToken e prefix u t w0) =
        (case jsonMarshal e t of
           Inl err \<Rightarrow> Some (Wrapped ''failed to marshal token'' err)
         | Inr d \<Rightarrow>
             (case redisSetAt e (Suc (tick w0)) of
                Some err \<Rightarrow> Some (Wrapped ''failed to save token'' err)
              | None \<Rightarrow> None)))"
proof (cases "healthAt e (tick w)")
  case False
  then show ?thesis
    by (simp add: replication_pass_def healthCheck_def Let_def Redis_save_result)
next
  case True
  define w3 where "w3 = emit EvRUnlock (emit EvRLock (advance (emit (EvHealthCheck True) w)))"
  have p: "replication_pass e prefix w = replicate_tokens e prefix (localCache w) w3"
    using True by (simp add: replication_pass_def healthCheck_def Let_def w3_def)
  have t3: "trace w3 = trace w @ [EvHealthCheck True, EvRLock, EvRUnlock]"
    by (simp add: w3_def)
  from replicate_tokens_events[of e prefix "localCache w" w3] obtain evs where
    tr: "trace (replicate_tokens e prefix (localCache w) w3) = trace w3 @ evs"
    and nl: "\<forall>ev \<in> set evs. \<not> is_lock_event ev"
    and cnt: "length (filter is_durable_write evs) =
             length (filter (\<lambda>(u, t). \<exists>d. jsonMarshal e t = Inr d) (localCache w))"
    and sets: "\<forall>(u, t) \<in> set (localCache w). \<forall>d. jsonMarshal e t = Inr d \<longrightarrow>
               (\<exists>ttl. EvRedisSet (key prefix u) d ttl \<in> set evs)"
    and mlog: "\<forall>(u, t) \<in> set (localCache w). \<forall>err. jsonMarshal e t = Inl err \<longrightarrow>
               EvLog (''Replication error for user '' @ u) (Wrapped ''failed to marshal token'' err)
                 \<in> set evs"
    and flog: "(\<forall>n. redisSetAt e n \<noteq> None) \<longrightarrow>
              (\<forall>(u, t) \<in> set (localCache w).
                  \<exists>err. EvLog (''Replication error for user '' @ u) err \<in> set evs)"
    by blast
  have mixed: "\<exists>before after.
                 evs = before @ EvLog (''Replication error for user '' @ u) err # after \<and>
                 length (filter is_durable_write after) =
                   length (filter (\<lambda>(u, t). \<exists>d. jsonMarshal e t = Inr d) post) \<and>
                 (\<forall>(u', t') \<in> set post. \<forall>d. jsonMarshal e t' = Inr d \<longrightarrow>
                     (\<exists>ttl. EvRedisSet (key prefix u') d ttl \<in> set after))"
    if dec: "localCache w = pre @ (u, t) # post"
      and fail: "fst (RedisTokenStore_SaveToken e prefix u t (replicate_tokens e prefix pre w3))
                = Some err"
    for pre u t post err
  proof -
    from replicate_tokens_failure_logged[OF fail, of post] obtain before after where
      a: "trace (replicate_tokens e prefix (pre @ (u, t) # post) w3) =
            trace w3 @ before @ EvLog (''Replication error for user '' @ u) err # after"
      and b: "length (filter is_durable_write after) =
                   length (filter (\<lambda>(u, t). \<exists>d. jsonMarshal e t = Inr d) post)"
      and c: "\<forall>(u', t') \<in> set post. \<forall>d. jsonMarshal e t' = Inr d \<longrightarrow>
                     (\<exists>ttl. EvRedisSet (key prefix u') d ttl \<in> set after)"
      by blast
    from a tr dec have "evs = before @ EvLog (''Replication error for user '' @ u) err # after"
      by simp
    with b c show ?thesis by blast
  qed
  have tr': "trace (replication_pass e prefix w) =
      trace w @ [EvHealthCheck True, EvRLock, EvRUnlock] @ evs"
    using tr t3 p by simp
  have cache: "localCache (replication_pass e prefix w) = localCache w"
    by (simp add: p replicate_tokens_cache w3_def)
  have inner: "\<exists>evs. trace (replication_pass e prefix w) =
          trace w @ [EvHealthCheck True, EvRLock, EvRUnlock] @ evs \<and>
           (\<forall>ev \<in> set evs. \<not> is_lock_event ev) \<and>
           length (filter is_durable_write evs) =
             length (filter (\<lambda>(u, t). \<exists>d. jsonMarshal e t = Inr d) (localCache w)) \<and>
           (\<forall>(u, t) \<in> set (localCache w). \<forall>d. jsonMarshal e t = Inr d \<longrightarrow>
               (\<exists>ttl. EvRedisSet (key prefix u) d ttl \<in> set evs)) \<and>
           (\<forall>(u, t) \<in> set (localCache w). \<forall>err. jsonMarshal e t = Inl err \<longrightarrow>
               EvLog (''Replication error for user '' @ u) (Wrapped ''failed to marshal token'' err)
                 \<in> set evs) \<and>
           ((\<forall>n. redisSetAt e n \<noteq> None) \<longrightarrow>
              (\<forall>(u, t) \<in> set (localCache w).
                  \<exists>err. EvLog (''Replication error for user '' @ u) err \<in> set evs)) \<and>
           (\<forall>pre u t post err.
              localCache w = pre @ (u, t) # post \<and>
              fst (RedisTokenStore_SaveToken e prefix u t (replicate_tokens e prefix pre w3))
                = Some err \<longrightarrow>
              (\<exists>before after.
                 evs = before @ EvLog (''Replication error for user '' @ u) err # after \<and>
                 length (filter is_durable_write after) =
                   length (filter (\<lambda>(u, t). \<exists>d. jsonMarshal e t = Inr d) post) \<and>
                 (\<forall>(u', t') \<in> set post. \<forall>d. jsonMarshal e t' = Inr d \<longrightarrow>
                     (\<exists>ttl. EvRedisSet (key prefix u') d ttl \<in> set after))))"
    apply (rule exI[of _ evs])
    using tr' nl cnt sets mlog flog mixed by blast
  show ?thesis
    unfolding Let_def w3_def[symmetric]
    using True cache inner Redis_save_result[of e prefix] by simp
qed

text \<open>
  The theorem at work. On a cache with one record: Redis up, Redis healthy but refusing
  writes, a record that cannot be marshalled, Redis down. On a cache with two records:
  the \<^verbatim>\<open>SET\<close> of the first fails and the second is saved all the same, after the line
  logged for the first; the first is saved and the \<^verbatim>\<open>SET\<close> of the second fails.
\<close>

theorem C9_replication_pass_witness:
  "healthAt envUp (tick world1) \<and>
   jsonMarshal envUp tokOld = Inr ''{...}'' \<and>
   trace (replication_pass envUp ''qb'' world1) =
     [EvHealthCheck True, EvRLock, EvRUnlock, EvRedisSet ''qb:token:u1'' ''{...}'' 86399999999000] \<and>
   (\<forall>n. redisSetAt envStale n \<noteq> None) \<and>
   trace (replication_pass envStale ''qb'' world1) =
     [EvHealthCheck True, EvRLock, EvRUnlock, EvRedisSet ''qb:token:u1'' ''{...}'' 86399999999000,
      EvLog ''Replication error for user u1''
        (Wrapped ''failed to save token'' (Msg ''OOM command not allowed''))] \<and>
   jsonMarshal envNoMarshal tokOld = Inl (Msg ''unsupported value'') \<and>
   trace (replication_pass envNoMarshal ''qb'' world1) =
     [EvHealthCheck True, EvRLock, EvRUnlock,
      EvLog ''Replication error for user u1''
        (Wrapped ''failed to marshal token'' (Msg ''unsupported value''))] \<and>
   \<not> healthAt envDown (tick world1) \<and>
   trace (replication_pass envDown ''qb'' world1) = [EvHealthCheck False] \<and>
   healthAt envFirstSetFails (tick world2) \<and>
   localCache world2 = [] @ (''u1'', tokOld) # [(''u2'', tokFresh)] \<and>
   fst (RedisTokenStore_SaveToken envFirstSetFails ''qb'' ''u1'' tokOld
          (replicate_tokens envFirstSetFails ''qb'' []
             (emit EvRUnlock (emit EvRLock (advance (emit (EvHealthCheck True) world2))))))
     = Some (Wrapped ''failed to save token'' (Msg ''i/o timeout'')) \<and>
   trace (replication_pass envFirstSetFails ''qb'' world2) =
     [EvHealthCheck True, EvRLock, EvRUnlock] @
     [EvRedisSet ''qb:token:u1'' ''{...}'' 86399999999000] @
     EvLog ''Replication error for user u1'' (Wrapped ''failed to save token'' (Msg ''i/o timeout'')) #
     [EvRedisSet ''qb:token:u2'' ''{...}'' 89999999999000] \<and>
   localCache world2 = [(''u1'', tokOld)] @ (''u2'', tokFresh) # [] \<and>
   fst (RedisTokenStore_SaveToken envSecondSetFails ''qb'' ''u2'' tokFresh
          (replicate_tokens envSecondSetFails ''qb'' [(''u1'', tokOld)]
             (emit EvRUnlock (emit EvRLock (advance (emit (EvHealthCheck True) world2))))))
     = Some (Wrapped ''failed to save token'' (Msg ''i/o timeout'')) \<and>
   trace (replication_pass envSecondSetFails ''qb'' world2) =
     [EvHealthCheck True, EvRLock, EvRUnlock] @
     [EvRedisSet ''qb:token:u1'' ''{...}'' 86399999999000,
      EvRedisSet ''qb:token:u2'' ''{...}'' 89999999999000] @
     EvLog ''Replication error for user u2'' (Wrapped ''failed to save token'' (Msg ''i/o timeout'')) #
     []"
  using C9_replication_pass[of envUp world1 "''qb''"] C9_replication_pass[of envStale world1 "''qb''"]
    C9_replication_pass[of envNoMarshal world1 "''qb''"]
    C9_replication_pass[of envDown world1 "''qb''"]
    C9_replication_pass[of envFirstSetFails world2 "''qb''"]
    C9_replication_pass[of envSecondSetFails world2 "''qb''"]
  by (simp add: input_defs input_defs2 run_defs time_defs replication_pass_def world2_def
        envFirstSetFails_def envSecondSetFails_def)

section \<open>The service\<close>


lemma executeTokenRequest_cache:
  "localCache (snd (executeTokenRequest e s data w)) = localCache w"
  by (auto simp: executeTokenRequest_def Let_def split: token_reply.splits sum.splits if_splits)

lemma Service_RefreshToken_loaded:
  assumes load: "TokenStore_GetToken e (tokenStore s) userID w = (Inr old, w1)"
    and up: "executeTokenRequest e s
               [(''grant_type'', ''refresh_token''), (''refresh_token'', RefreshToken old)] w1
             = (Inr up, w2)"
  shows "Service_RefreshToken e s userID w =
     (let new1 = up\<lparr>ExpiresAt := clockAt e (tick w2) + wrap64 (ExpiresIn up * Second),
                     RealmID := RealmID old\<rparr>;
          new2 = (if RefreshToken up = [] then new1\<lparr>RefreshToken := RefreshToken old\<rparr>
                  else new1) in
      case TokenStore_SaveToken e (tokenStore s) userID new2 (advance w2) of
        (Some err, w4) \<Rightarrow> (Inl (Wrapped ''failed to save refreshed token'' err), w4)
      | (None, w4) \<Rightarrow> (Inr new2, w4))"
  using load up
  by (simp add: Service_RefreshToken_def Let_def time_Now_def)


subsection \<open>Refresh\<close>

text \<open>
  Claim C6. When the record of the user is loaded and the token endpoint answers the
  refresh with a token, \<^verbatim>\<open>RefreshToken\<close> either returns a record or, with the Redis
  store alone, the error of the failed save. The record returned has the refresh token of
  the loaded record when the answer has none (the empty string) and the refresh token of
  the answer otherwise, and it is the record saved: it is in the cache of the fallback
  store, and its data were sent to Redis by the Redis store.
\<close>

theorem C6_refresh_token_kept_or_replaced:
  assumes load: "TokenStore_GetToken e (tokenStore s) userID w = (Inr old, w1)"
    and up: "executeTokenRequest e s
               [(''grant_type'', ''refresh_token''), (''refresh_token'', RefreshToken old)] w1
             = (Inr up, w2)"
  shows "case Service_RefreshToken e s userID w of
           (Inr new, w') \<Rightarrow>
             RefreshToken new =
               (if RefreshToken up = [] then RefreshToken old else RefreshToken up) \<and>
             (\<forall>p. tokenStore s = FallbackStore p \<longrightarrow> map_of (localCache w') userID = Some new) \<and>
             (\<forall>p. tokenStore s = RedisStore p \<longrightarrow>
                (\<exists>d ttl. jsonMarshal e new = Inr d \<and>
                   EvRedisSet (key p userID) d ttl \<in> set (trace w')))
         | (Inl err, w') \<Rightarrow>
             (\<exists>p err1. tokenStore s = RedisStore p \<and>
                err = Wrapped ''failed to save refreshed token'' err1)"
proof (cases "tokenStore s")
  case (RedisStore p)
  show ?thesis
    unfolding Service_RefreshToken_loaded[OF load up] Let_def
    by (cases "RefreshToken up = []")
       (auto simp: RedisStore split: prod.splits option.splits dest!: Redis_save_ok)
next
  case (FallbackStore p)
  show ?thesis
    unfolding Service_RefreshToken_loaded[OF load up] Let_def
    by (cases "RefreshToken up = []")
       (auto simp: FallbackStore split: prod.splits option.splits dest: Fallback_save_eq)
qed

text \<open>
  The theorem at work: the endpoint's answer without a refresh token, then one with the
  refresh token \<open>rt-new\<close>.
\<close>

theorem C6_refresh_token_witness:
  "TokenStore_GetToken envDown (tokenStore svcFallback) ''u1'' world1 = (Inr tokOld, world1Loaded) \<and>
   executeTokenRequest envDown svcFallback
     [(''grant_type'', ''refresh_token''), (''refresh_token'', RefreshToken tokOld)] world1Loaded
     = (Inr tokUp, world1Asked) \<and>
   RefreshToken tokUp = [] \<and>
   fst (Service_RefreshToken envDown svcFallback ''u1'' world1) = Inr tokNew \<and>
   RefreshToken tokNew = RefreshToken tokOld \<and>
   map_of (localCache (snd (Service_RefreshToken envDown svcFallback ''u1'' world1))) ''u1''
     = Some tokNew \<and>
   executeTokenRequest envShort svcFallback
     [(''grant_type'', ''refresh_token''), (''refresh_token'', RefreshToken tokOld)] world1Loaded
     = (Inr tokShort, world1Asked) \<and>
   RefreshToken tokShort = ''rt-new'' \<and>
   fst (Service_RefreshToken envShort svcFallback ''u1'' world1) =
     Inr (tokShort\<lparr>ExpiresAt := 60000001000, RealmID := ''9991''\<rparr>) \<and>
   fst (TokenStore_GetToken envUp (tokenStore svcRedis) ''u1'' world0) = Inr tokOld \<and>
   fst (Service_RefreshToken envUp svcRedis ''u1'' world0) = Inr tokNew \<and>
   trace (snd (Service_RefreshToken envUp svcRedis ''u1'' world0)) =
     [EvRedisGet ''qb:token:u1'', EvTokenRequest refreshForm,
      EvRedisSet ''qb:token:u1'' ''{...}'' 90000000000000] \<and>
   fst (Service_RefreshToken envStale svcRedis ''u1'' world0) =
     Inl (Wrapped ''failed to save refreshed token''
            (Wrapped ''failed to save token'' (Msg ''OOM command not allowed'')))"
proof -
  have load: "TokenStore_GetToken envDown (tokenStore svcFallback) ''u1'' world1
      = (Inr tokOld, world1Loaded)"
    by (simp add: all_defs)
  have up: "executeTokenRequest envDown svcFallback
     [(''grant_type'', ''refresh_token''), (''refresh_token'', RefreshToken tokOld)] world1Loaded
     = (Inr tokUp, world1Asked)"
    by (simp add: all_defs)
  have load2: "TokenStore_GetToken envShort (tokenStore svcFallback) ''u1'' world1
      = (Inr tokOld, world1Loaded)"
    by (simp add: all_defs)
  have up2: "executeTokenRequest envShort svcFallback
     [(''grant_type'', ''refresh_token''), (''refresh_token'', RefreshToken tokOld)] world1Loaded
     = (Inr tokShort, world1Asked)"
    by (simp add: all_defs)
  have load3: "TokenStore_GetToken envUp (tokenStore svcRedis) ''u1'' world0
      = (Inr tokOld, snd (TokenStore_GetToken envUp (tokenStore svcRedis) ''u1'' world0))"
    by (simp add: all_defs)
  have up3: "executeTokenRequest envUp svcRedis
     [(''grant_type'', ''refresh_token''), (''refresh_token'', RefreshToken tokOld)]
     (snd (TokenStore_GetToken envUp (tokenStore svcRedis) ''u1'' world0))
     = (Inr tokUp, snd (executeTokenRequest envUp svcRedis
     [(''grant_type'', ''refresh_token''), (''refresh_token'', RefreshToken tokOld)]
     (snd (TokenStore_GetToken envUp (tokenStore svcRedis) ''u1'' world0))))"
    by (simp add: all_defs)
  have load4: "TokenStore_GetToken envStale (tokenStore svcRedis) ''u1'' world0
      = (Inr tokOld, snd (TokenStore_GetToken envStale (tokenStore svcRedis) ''u1'' world0))"
    by (simp add: all_defs)
  have up4: "executeTokenRequest envStale svcRedis
     [(''grant_type'', ''refresh_token''), (''refresh_token'', RefreshToken tokOld)]
     (snd (TokenStore_GetToken envStale (tokenStore svcRedis) ''u1'' world0))
     = (Inr tokUp, snd (executeTokenRequest envStale svcRedis
     [(''grant_type'', ''refresh_token''), (''refresh_token'', RefreshToken tokOld)]
     (snd (TokenStore_GetToken envStale (tokenStore svcRedis) ''u1'' world0))))"
    by (simp add: all_defs)
  show ?thesis
    using load up up2 C6_refresh_token_kept_or_replaced[OF load up]
      C6_refresh_token_kept_or_replaced[OF load2 up2]
      C6_refresh_token_kept_or_replaced[OF load3 up3]
      C6_refresh_token_kept_or_replaced[OF load4 up4]
    by (simp add: all_defs)
qed

text \<open>
  Claim C7. Under the same conditions the record returned and saved by \<^verbatim>\<open>RefreshToken\<close>
  has the realm id of the loaded record, whatever realm id the answer of the token
  endpoint carries, also none.
\<close>

theorem C7_refresh_keeps_tenant:
  assumes load: "TokenStore_GetToken e (tokenStore s) userID w = (Inr old, w1)"
    and up: "executeTokenRequest e s
               [(''grant_type'', ''refresh_token''), (''refresh_token'', RefreshToken old)] w1
             = (Inr up, w2)"
  shows "case Service_RefreshToken e s userID w of
           (Inr new, w') \<Rightarrow>
             RealmID new = RealmID old \<and>
             (\<forall>p. tokenStore s = FallbackStore p \<longrightarrow>
                (\<exists>kept. map_of (localCache w') userID = Some kept \<and> RealmID kept = RealmID old)) \<and>
             (\<forall>p. tokenStore s = RedisStore p \<longrightarrow>
                (\<exists>d ttl. jsonMarshal e new = Inr d \<and>
                   EvRedisSet (key p userID) d ttl \<in> set (trace w')))
         | (Inl err, w') \<Rightarrow>
             (\<exists>p err1. tokenStore s = RedisStore p \<and>
                err = Wrapped ''failed to save refreshed token'' err1)"
proof (cases "tokenStore s")
  case (RedisStore p)
  show ?thesis
    unfolding Service_RefreshToken_loaded[OF load up] Let_def
    by (cases "RefreshToken up = []")
       (auto simp: RedisStore split: prod.splits option.splits dest!: Redis_save_ok)
next
  case (FallbackStore p)
  show ?thesis
    unfolding Service_RefreshToken_loaded[OF load up] Let_def
    by (cases "RefreshToken up = []")
       (auto simp: FallbackStore split: prod.splits option.splits dest: Fallback_save_eq)
qed

text \<open>
The theorem at work: the answer has no realm id, the record keeps \<open>9991\<close>.
\<close>

theorem C7_refresh_keeps_tenant_witness:
  "TokenStore_GetToken envDown (tokenStore svcFallback) ''u1'' world1 = (Inr tokOld, world1Loaded) \<and>
   executeTokenRequest envDown svcFallback
     [(''grant_type'', ''refresh_token''), (''refresh_token'', RefreshToken tokOld)] world1Loaded
     = (Inr tokUp, world1Asked) \<and>
   RealmID tokUp = [] \<and>
   fst (Service_RefreshToken envDown svcFallback ''u1'' world1) = Inr tokNew \<and>
   RealmID tokNew = RealmID tokOld \<and>
   map_of (localCache (snd (Service_RefreshToken envDown svcFallback ''u1'' world1))) ''u1''
     = Some tokNew \<and>
   fst (TokenStore_GetToken envUp (tokenStore svcRedis) ''u1'' world0) = Inr tokOld \<and>
   fst (Service_RefreshToken envUp svcRedis ''u1'' world0) = Inr tokNew \<and>
   fst (Service_RefreshToken envStale svcRedis ''u1'' world0) =
     Inl (Wrapped ''failed to save refreshed token''
            (Wrapped ''failed to save token'' (Msg ''OOM command not allowed'')))"
proof -
  have load: "TokenStore_GetToken envDown (tokenStore svcFallback) ''u1'' world1
      = (Inr tokOld, world1Loaded)"
    by (simp add: all_defs)
  have up: "executeTokenRequest envDown svcFallback
     [(''grant_type'', ''refresh_token''), (''refresh_token'', RefreshToken tokOld)] world1Loaded
     = (Inr tokUp, world1Asked)"
    by (simp add: all_defs)
  have load3: "TokenStore_GetToken envUp (tokenStore svcRedis) ''u1'' world0
      = (Inr tokOld, snd (TokenStore_GetToken envUp (tokenStore svcRedis) ''u1'' world0))"
    by (simp add: all_defs)
  have up3: "executeTokenRequest envUp svcRedis
     [(''grant_type'', ''refresh_token''), (''refresh_token'', RefreshToken tokOld)]
     (snd (TokenStore_GetToken envUp (tokenStore svcRedis) ''u1'' world0))
     = (Inr tokUp, snd (executeTokenRequest envUp svcRedis
     [(''grant_type'', ''refresh_token''), (''refresh_token'', RefreshToken tokOld)]
     (snd (TokenStore_GetToken envUp (tokenStore svcRedis) ''u1'' world0))))"
    by (simp add: all_defs)
  have load4: "TokenStore_GetToken envStale (tokenStore svcRedis) ''u1'' world0
      = (Inr tokOld, snd (TokenStore_GetToken envStale (tokenStore svcRedis) ''u1'' world0))"
    by (simp add: all_defs)
  have up4: "executeTokenRequest envStale svcRedis
     [(''grant_type'', ''refresh_token''), (''refresh_token'', RefreshToken tokOld)]
     (snd (TokenStore_GetToken envStale (tokenStore svcRedis) ''u1'' world0))
     = (Inr tokUp, snd (executeTokenRequest envStale svcRedis
     [(''grant_type'', ''refresh_token''), (''refresh_token'', RefreshToken tokOld)]
     (snd (TokenStore_GetToken envStale (tokenStore svcRedis) ''u1'' world0))))"
    by (simp add: all_defs)
  show ?thesis
    using load up C7_refresh_keeps_tenant[OF load up] C7_refresh_keeps_tenant[OF load3 up3]
      C7_refresh_keeps_tenant[OF load4 up4]
    by (simp add: all_defs)
qed

subsection \<open>Disconnect\<close>

lemma revokeToken_cache:
  "localCache (snd (revokeToken e s tok w)) = localCache w"
  by (auto simp: revokeToken_def Let_def split: token_reply.splits)

lemma revokeToken_trace:
  "\<exists>evs. trace (snd (revokeToken e s tok w)) = trace w @ evs \<and>
         set evs \<subseteq> {EvRevokeRequest tok}"
  by (auto simp: revokeToken_def Let_def split: token_reply.splits)

lemma revokeToken_ok:
  "fst (revokeToken e s tok w) = None \<Longrightarrow>
     snd (revokeToken e s tok w) = advance (emit (EvRevokeRequest tok) w)"
  by (auto simp: revokeToken_def Let_def split: token_reply.splits if_splits)

lemma revoke_no_delete:
  "EvRedisDel k \<in> set (trace (snd (revokeToken e s tok w))) \<Longrightarrow> EvRedisDel k \<in> set (trace w)"
  using revokeToken_trace[of e s tok w] by auto

lemma Service_Disconnect_loaded:
  assumes load: "TokenStore_GetToken e (tokenStore s) userID w = (Inr token, w1)"
  shows "Service_Disconnect e s userID w =
     (case fst (revokeToken e s (AccessToken token) w1) of
        Some err \<Rightarrow> (Some err, snd (revokeToken e s (AccessToken token) w1))
      | None \<Rightarrow>
          (case fst (revokeToken e s (RefreshToken token)
                       (snd (revokeToken e s (AccessToken token) w1))) of
             Some err \<Rightarrow>
               (Some err, snd (revokeToken e s (RefreshToken token)
                                 (snd (revokeToken e s (AccessToken token) w1))))
           | None \<Rightarrow>
               TokenStore_DeleteToken e (tokenStore s) userID
                 (snd (revokeToken e s (RefreshToken token)
                         (snd (revokeToken e s (AccessToken token) w1))))))"
  using load
  by (auto simp: Service_Disconnect_def split: prod.splits option.splits)

text \<open>
  Claim C4. When the record of the user is loaded, \<^verbatim>\<open>Disconnect\<close> revokes the access token
  and then the refresh token. When the first revocation fails, its error is returned and
  nothing more is done; when the second fails, its error is returned; in both cases the
  cache is as it was after the load and no \<^verbatim>\<open>DEL\<close> was sent to Redis, and with the fallback
  store the record is still in the cache and every later read of the user returns a
  record. Only when both revocations succeed is the record deleted: the result is then
  that of \<^verbatim>\<open>DeleteToken\<close>, which removes the cache entry of the fallback store and sends the
  \<^verbatim>\<open>DEL\<close> of the Redis store.
\<close>

theorem C4_disconnect:
  assumes load: "TokenStore_GetToken e (tokenStore s) userID w = (Inr token, w1)"
  shows "let r1 = revokeToken e s (AccessToken token) w1;
             r2 = revokeToken e s (RefreshToken token) (snd r1);
             res = Service_Disconnect e s userID w
         in (\<forall>err. fst r1 = Some err \<longrightarrow>
               fst res = Some err \<and> snd res = snd r1 \<and>
               localCache (snd res) = localCache w1 \<and>
               (\<forall>k. EvRedisDel k \<in> set (trace (snd res)) \<longrightarrow> EvRedisDel k \<in> set (trace w))) \<and>
            (\<forall>err. fst r1 = None \<and> fst r2 = Some err \<longrightarrow>
               fst res = Some err \<and> snd res = snd r2 \<and>
               localCache (snd res) = localCache w1 \<and>
               (\<forall>k. EvRedisDel k \<in> set (trace (snd res)) \<longrightarrow> EvRedisDel k \<in> set (trace w))) \<and>
            (fst r1 = None \<and> fst r2 = None \<longrightarrow>
               res = TokenStore_DeleteToken e (tokenStore s) userID (snd r2) \<and>
               trace (snd r2) =
                 trace w1 @ [EvRevokeRequest (AccessToken token),
                             EvRevokeRequest (RefreshToken token)] \<and>
               (\<forall>p. tokenStore s = FallbackStore p \<longrightarrow>
                  fst res = None \<and> map_of (localCache (snd res)) userID = None) \<and>
               (\<forall>p. tokenStore s = RedisStore p \<longrightarrow>
                  EvRedisDel (key p userID) \<in> set (trace (snd res)))) \<and>
            (\<forall>p. tokenStore s = FallbackStore p \<and> (fst r1 \<noteq> None \<or> fst r2 \<noteq> None) \<longrightarrow>
               map_of (localCache (snd res)) userID = Some token \<and>
               (\<forall>e'. \<exists>t. fst (FallbackTokenStore_GetToken e' p userID (snd res)) = Inr t))"
proof -
  let ?r1 = "revokeToken e s (AccessToken token) w1"
  let ?r2 = "revokeToken e s (RefreshToken token) (snd ?r1)"
  let ?res = "Service_Disconnect e s userID w"
  note unf = Service_Disconnect_loaded[OF load]
  have w1: "w1 = snd (TokenStore_GetToken e (tokenStore s) userID w)" using load by simp
  have nd1: "EvRedisDel k \<in> set (trace (snd ?r1)) \<Longrightarrow> EvRedisDel k \<in> set (trace w)" for k
    using revoke_no_delete[of k e s "AccessToken token" w1]
      TokenStore_get_no_delete[of k e "tokenStore s" userID w] w1 by blast
  have nd2: "EvRedisDel k \<in> set (trace (snd ?r2)) \<Longrightarrow> EvRedisDel k \<in> set (trace w)" for k
    using revoke_no_delete[of k e s "RefreshToken token" "snd ?r1"] nd1 by blast
  have c1: "localCache (snd ?r1) = localCache w1" by (rule revokeToken_cache)
  have c2: "localCache (snd ?r2) = localCache w1" using c1 by (simp add: revokeToken_cache)
  have A: "fst ?res = Some err \<and> snd ?res = snd ?r1 \<and> localCache (snd ?res) = localCache w1 \<and>
       (\<forall>k. EvRedisDel k \<in> set (trace (snd ?res)) \<longrightarrow> EvRedisDel k \<in> set (trace w))"
    if "fst ?r1 = Some err" for err
    using that c1 nd1 by (simp add: unf)
  have B: "fst ?res = Some err \<and> snd ?res = snd ?r2 \<and> localCache (snd ?res) = localCache w1 \<and>
       (\<forall>k. EvRedisDel k \<in> set (trace (snd ?res)) \<longrightarrow> EvRedisDel k \<in> set (trace w))"
    if "fst ?r1 = None \<and> fst ?r2 = Some err" for err
    using that c2 nd2 by (simp add: unf)
  have C: "?res = TokenStore_DeleteToken e (tokenStore s) userID (snd ?r2) \<and>
       trace (snd ?r2) = trace w1 @ [EvRevokeRequest (AccessToken token),
                             EvRevokeRequest (RefreshToken token)] \<and>
       (\<forall>p. tokenStore s = FallbackStore p \<longrightarrow>
          fst ?res = None \<and> map_of (localCache (snd ?res)) userID = None) \<and>
       (\<forall>p. tokenStore s = RedisStore p \<longrightarrow>
          EvRedisDel (key p userID) \<in> set (trace (snd ?res)))"
    if ok: "fst ?r1 = None \<and> fst ?r2 = None"
  proof -
    have e1: "snd ?r1 = advance (emit (EvRevokeRequest (AccessToken token)) w1)"
      using ok revokeToken_ok[of e s "AccessToken token" w1] by blast
    have e2: "snd ?r2 = advance (emit (EvRevokeRequest (RefreshToken token)) (snd ?r1))"
      using ok revokeToken_ok[of e s "RefreshToken token" "snd ?r1"] by blast
    have r: "?res = TokenStore_DeleteToken e (tokenStore s) userID (snd ?r2)"
      using ok by (simp add: unf)
    have t: "trace (snd ?r2) = trace w1 @ [EvRevokeRequest (AccessToken token),
                             EvRevokeRequest (RefreshToken token)]"
      by (simp add: e2) (simp add: e1)
    have f: "fst ?res = None \<and> map_of (localCache (snd ?res)) userID = None"
      if "tokenStore s = FallbackStore p" for p
      unfolding r that
      by (auto simp: FallbackTokenStore_DeleteToken_def RedisTokenStore_DeleteToken_def
            redis_Del_def healthCheck_def Let_def delete_conv' split: prod.splits option.splits bool.splits)
    have d: "EvRedisDel (key p userID) \<in> set (trace (snd ?res))"
      if "tokenStore s = RedisStore p" for p
      unfolding r that
      by (auto simp: RedisTokenStore_DeleteToken_def redis_Del_def split: prod.splits option.splits)
    show ?thesis using r t f d by blast
  qed
  have D: "map_of (localCache (snd ?res)) userID = Some token \<and>
       (\<forall>e'. \<exists>t. fst (FallbackTokenStore_GetToken e' p userID (snd ?res)) = Inr t)"
    if st: "tokenStore s = FallbackStore p \<and> (fst ?r1 \<noteq> None \<or> fst ?r2 \<noteq> None)" for p
  proof -
    from load st have "map_of (localCache w1) userID = Some token"
      by (auto dest: Fallback_get_cached)
    moreover have "localCache (snd ?res) = localCache w1"
      using st A B by (cases "fst ?r1"; cases "fst ?r2") auto
    ultimately have m: "map_of (localCache (snd ?res)) userID = Some token" by simp
    then show ?thesis using Fallback_get_present[OF m] by blast
  qed
  show ?thesis
    unfolding Let_def using A B C D by blast
qed

text \<open>
  The theorem at work: the revocation endpoint refuses and the record stays; the
  endpoint accepts both revocations and the record is gone.
\<close>

theorem C4_disconnect_witness:
  "TokenStore_GetToken envRevokeFails (tokenStore svcFallback) ''u1'' world1
     = (Inr tokOld, world1Loaded) \<and>
   fst (revokeToken envRevokeFails svcFallback (AccessToken tokOld) world1Loaded)
     = Some (StatusError ''revoke request failed with status'' 500 ''error'') \<and>
   fst (Service_Disconnect envRevokeFails svcFallback ''u1'' world1)
     = Some (StatusError ''revoke request failed with status'' 500 ''error'') \<and>
   map_of (localCache (snd (Service_Disconnect envRevokeFails svcFallback ''u1'' world1))) ''u1''
     = Some tokOld \<and>
   trace (snd (Service_Disconnect envRevokeFails svcFallback ''u1'' world1)) =
     [EvHealthCheck False, EvRLock, EvRUnlock, EvRevokeRequest ''at-old''] \<and>
   fst (FallbackTokenStore_GetToken envUp ''qb'' ''u1''
          (snd (Service_Disconnect envRevokeFails svcFallback ''u1'' world1))) = Inr tokOld \<and>
   fst (revokeToken envSecondRevokeFails svcFallback (AccessToken tokOld) world1Loaded) = None \<and>
   fst (Service_Disconnect envSecondRevokeFails svcFallback ''u1'' world1)
     = Some (StatusError ''revoke request failed with status'' 500 ''error'') \<and>
   map_of (localCache (snd (Service_Disconnect envSecondRevokeFails svcFallback ''u1'' world1))) ''u1''
     = Some tokOld \<and>
   trace (snd (Service_Disconnect envSecondRevokeFails svcFallback ''u1'' world1)) =
     [EvHealthCheck False, EvRLock, EvRUnlock, EvRevokeRequest ''at-old'',
      EvRevokeRequest ''rt-old''] \<and>
   fst (revokeToken envDown svcFallback (AccessToken tokOld) world1Loaded) = None \<and>
   fst (Service_Disconnect envDown svcFallback ''u1'' world1) = None \<and>
   map_of (localCache (snd (Service_Disconnect envDown svcFallback ''u1'' world1))) ''u1'' = None \<and>
   trace (snd (Service_Disconnect envDown svcFallback ''u1'' world1)) =
     [EvHealthCheck False, EvRLock, EvRUnlock, EvRevokeRequest ''at-old'',
      EvRevokeRequest ''rt-old'', EvLock, EvUnlock, EvHealthCheck False] \<and>
   trace (snd (Service_Disconnect envUp svcRedis ''u1'' world0)) =
     [EvRedisGet ''qb:token:u1'', EvRevokeRequest ''at-old'', EvRevokeRequest ''rt-old'',
      EvRedisDel ''qb:token:u1'']"
proof -
  have load: "TokenStore_GetToken envRevokeFails (tokenStore svcFallback) ''u1'' world1
      = (Inr tokOld, world1Loaded)"
    by (simp add: all_defs)
  have load2: "TokenStore_GetToken envDown (tokenStore svcFallback) ''u1'' world1
      = (Inr tokOld, world1Loaded)"
    by (simp add: all_defs)
  have load3: "TokenStore_GetToken envSecondRevokeFails (tokenStore svcFallback) ''u1'' world1
      = (Inr tokOld, world1Loaded)"
    by (simp add: all_defs envSecondRevokeFails_def)
  have load4: "TokenStore_GetToken envUp (tokenStore svcRedis) ''u1'' world0
      = (Inr tokOld, snd (TokenStore_GetToken envUp (tokenStore svcRedis) ''u1'' world0))"
    by (simp add: all_defs)
  show ?thesis
    using load load2 C4_disconnect[OF load] C4_disconnect[OF load2] C4_disconnect[OF load3]
      C4_disconnect[OF load4]
    by (simp add: all_defs envSecondRevokeFails_def)
qed

subsection \<open>Valid tokens\<close>





subsection \<open>The callback\<close>

text \<open>
  Claim C5 says that every record saved through the store has a realm id. The exchange
  of the authorization code saves the record as the token endpoint gave it, before the
  handler has looked at the realm id of the callback, and a callback without a realm id
  leaves it so: the record stored for \<open>u1\<close> has the empty realm id, after
  \<^verbatim>\<open>HandleCallback\<close> and after the whole handler.
\<close>

theorem C5_persisted_unbound_counterexample:
  "fst (Service_HandleCallback envDown svcFallback ''abc'' ''xyz'' ''u1'' world0) =
     Inr (tokUp\<lparr>ExpiresAt := 3600000001000\<rparr>) \<and>
   map_of (localCache (snd (Service_HandleCallback envDown svcFallback ''abc'' ''xyz'' ''u1'' world0)))
     ''u1'' = Some (tokUp\<lparr>ExpiresAt := 3600000001000\<rparr>) \<and>
   fst (Handler_CallbackHandler envDown svcFallback ''u1'' ''abc'' ''xyz'' [] sess0 world0) =
     Success [] \<and>
   map_of (localCache (snd (snd
     (Handler_CallbackHandler envDown svcFallback ''u1'' ''abc'' ''xyz'' [] sess0 world0))))
     ''u1'' = Some (tokUp\<lparr>ExpiresAt := 3600000001000\<rparr>) \<and>
   RealmID (tokUp\<lparr>ExpiresAt := 3600000001000\<rparr>) = []"
  by (simp add: all_defs)

text \<open>
  Claim C5, amended. When the callback carries a realm id that is not empty and the
  handler answers with success, the realm id it reports is that of the callback and the
  record last saved for the user has it: the record in the cache of the fallback store,
  the record whose data the Redis store sent, in the last command of the run. (Between
  the exchange and that second save the stored record has the realm id of the token
  endpoint's answer, and it keeps it when the callback carries no realm id.)
\<close>

theorem C5_callback_binds_tenant:
  assumes run: "Handler_CallbackHandler e s userID code st realmID sess w = (Success r, sess', w')"
    and realm: "realmID \<noteq> []"
  shows "r = realmID \<and>
     (\<forall>p. tokenStore s = FallbackStore p \<longrightarrow>
        (\<exists>t. map_of (localCache w') userID = Some t \<and> RealmID t = realmID)) \<and>
     (\<forall>p. tokenStore s = RedisStore p \<longrightarrow>
        (\<exists>t d ttl. RealmID t = realmID \<and> jsonMarshal e t = Inr d \<and>
           EvRedisSet (key p userID) d ttl \<in> set (trace w'))) \<and>
     (\<forall>p. tokenStore s = RedisStore p \<longrightarrow>
        (\<exists>t d ttl evs. RealmID t = realmID \<and> jsonMarshal e t = Inr d \<and>
           trace w' = evs @ [EvRedisSet (key p userID) d ttl]))"
proof -
  obtain now w1 where tn: "time_Now e w = (now, w1)"
    by (cases "time_Now e w")
  obtain r2 w2 where ss: "session_Save e w1 = (r2, w2)"
    by (cases "session_Save e w1")
  obtain r3 w3 where hc: "Service_HandleCallback e s code st userID w2 = (r3, w3)"
    by (cases "Service_HandleCallback e s code st userID w2")
  from run realm tn ss hc obtain token where r3: "r3 = Inr token"
    by (cases r3)
       (simp_all add: Handler_CallbackHandler_def Let_def split: if_splits option.splits)
  obtain r4 w4 where
    sv: "TokenStore_SaveToken e (tokenStore s) userID (token\<lparr>RealmID := realmID\<rparr>) w3 = (r4, w4)"
    by (cases "TokenStore_SaveToken e (tokenStore s) userID (token\<lparr>RealmID := realmID\<rparr>) w3")
  from run realm tn ss hc r3 sv have fin: "r4 = None \<and> r = realmID \<and> w' = w4"
    by (simp add: Handler_CallbackHandler_def Let_def split: if_splits option.splits)
  from TokenStore_save_ok[of e "tokenStore s" userID "token\<lparr>RealmID := realmID\<rparr>" w3 w'] sv fin
  have "(\<forall>p. tokenStore s = FallbackStore p \<longrightarrow>
            map_of (localCache w') userID = Some (token\<lparr>RealmID := realmID\<rparr>)) \<and>
        (\<forall>p. tokenStore s = RedisStore p \<longrightarrow>
            (\<exists>d ttl. jsonMarshal e (token\<lparr>RealmID := realmID\<rparr>) = Inr d \<and>
               EvRedisSet (key p userID) d ttl \<in> set (trace w')))"
    by simp
  moreover have "RealmID (token\<lparr>RealmID := realmID\<rparr>) = realmID" by simp
  moreover have "\<exists>d ttl. jsonMarshal e (token\<lparr>RealmID := realmID\<rparr>) = Inr d \<and>
      trace w' = trace w3 @ [EvRedisSet (key p userID) d ttl]"
    if "tokenStore s = RedisStore p" for p
    using sv fin that Redis_save_ok_last[of e p userID "token\<lparr>RealmID := realmID\<rparr>" w3 w']
    by simp
  ultimately show ?thesis using fin by blast
qed

text \<open>
  The theorem at work: the callback carries the realm id \<open>9991\<close>. In the last run the
  data sent to Redis show the realm id: empty in the save of the exchange, \<open>9991\<close> in the
  save of the handler, which is the last.
\<close>

theorem C5_callback_binds_tenant_witness:
  "Handler_CallbackHandler envDown svcFallback ''u1'' ''abc'' ''xyz'' ''9991'' sess0 world0 =
     (Success ''9991'', \<lparr>qb_state = None, qb_state_expiry = None\<rparr>,
      snd (snd (Handler_CallbackHandler envDown svcFallback ''u1'' ''abc'' ''xyz'' ''9991'' sess0 world0))) \<and>
   ''9991'' \<noteq> [] \<and>
   map_of (localCache (snd (snd
     (Handler_CallbackHandler envDown svcFallback ''u1'' ''abc'' ''xyz'' ''9991'' sess0 world0))))
     ''u1'' = Some (tokUp\<lparr>ExpiresAt := 3600000001000, RealmID := ''9991''\<rparr>) \<and>
   fst (Handler_CallbackHandler envUp svcRedis ''u1'' ''abc'' ''xyz'' ''9991'' sess0 world0) =
     Success ''9991'' \<and>
   jsonMarshal envUp (tokUp\<lparr>ExpiresAt := 3600000001000, RealmID := ''9991''\<rparr>) = Inr ''{...}'' \<and>
   EvRedisSet ''qb:token:u1'' ''{...}'' 90000000000000 \<in> set (trace (snd (snd
     (Handler_CallbackHandler envUp svcRedis ''u1'' ''abc'' ''xyz'' ''9991'' sess0 world0)))) \<and>
   fst (Handler_CallbackHandler envUpRealm svcRedis ''u1'' ''abc'' ''xyz'' ''9991'' sess0 world0) =
     Success ''9991'' \<and>
   jsonMarshal envUpRealm (tokUp\<lparr>ExpiresAt := 3600000001000, RealmID := ''9991''\<rparr>)
     = Inr ''realm=9991'' \<and>
   trace (snd (snd
     (Handler_CallbackHandler envUpRealm svcRedis ''u1'' ''abc'' ''xyz'' ''9991'' sess0 world0))) =
     [EvTokenRequest [(''grant_type'', ''authorization_code''), (''code'', ''abc''),
                      (''redirect_uri'', ''https://app/callback'')],
      EvRedisSet ''qb:token:u1'' ''realm='' 90000000000000] @
     [EvRedisSet ''qb:token:u1'' ''realm=9991'' 90000000000000]"
proof -
  have run: "Handler_CallbackHandler envDown svcFallback ''u1'' ''abc'' ''xyz'' ''9991'' sess0 world0 =
     (Success ''9991'', \<lparr>qb_state = None, qb_state_expiry = None\<rparr>,
      snd (snd (Handler_CallbackHandler envDown svcFallback ''u1'' ''abc'' ''xyz'' ''9991'' sess0 world0)))"
    by (simp add: all_defs)
  have run2: "Handler_CallbackHandler envUp svcRedis ''u1'' ''abc'' ''xyz'' ''9991'' sess0 world0 =
     (Success ''9991'', \<lparr>qb_state = None, qb_state_expiry = None\<rparr>,
      snd (snd (Handler_CallbackHandler envUp svcRedis ''u1'' ''abc'' ''xyz'' ''9991'' sess0 world0)))"
    by (simp add: all_defs)
  have run3: "Handler_CallbackHandler envUpRealm svcRedis ''u1'' ''abc'' ''xyz'' ''9991'' sess0 world0 =
     (Success ''9991'', \<lparr>qb_state = None, qb_state_expiry = None\<rparr>,
      snd (snd (Handler_CallbackHandler envUpRealm svcRedis ''u1'' ''abc'' ''xyz'' ''9991'' sess0 world0)))"
    by (simp add: all_defs envUpRealm_def)
  have realm: "''9991'' \<noteq> []" by simp
  show ?thesis
    using run C5_callback_binds_tenant[OF run realm] C5_callback_binds_tenant[OF run2 realm] C5_callback_binds_tenant[OF run3 realm]
    by (simp add: all_defs envUpRealm_def)
qed

section \<open>The health checker\<close>

lemma startPeriodicChecks_append:
  "startPeriodicChecks (ps @ qs) h = startPeriodicChecks qs (startPeriodicChecks ps h)"
  by (induction ps arbitrary: h) auto

lemma Check_status: "status (snd (Check now reply h)) = fst (Check now reply h)"
  by (simp add: Check_def Let_def split: prod.splits)

lemma Check_true_PONG: "fst (Check now reply h) \<Longrightarrow> reply = Inr ''PONG''"
  by (auto simp: Check_def CircuitBreaker_Execute_def Ping_def Let_def
        split: prod.splits sum.splits option.splits)

text \<open>
  Claim C10. A new checker is unhealthy. After any run of checks none of which returned
  true the checker is unhealthy; a check returns true only when its \<^verbatim>\<open>PING\<close> was answered
  \<open>PONG\<close>; and after a check \<^verbatim>\<open>IsHealthy\<close> is what the check returned, so the flag
  changes with the checks only.
\<close>

theorem C10_unhealthy_before_first_success:
  "\<not> IsHealthy (NewHealthChecker interval) \<and>
   ((\<forall>ps now reply rest. probes = ps @ (now, reply) # rest \<longrightarrow>
        \<not> fst (Check now reply (startPeriodicChecks ps (NewHealthChecker interval))))
     \<longrightarrow> \<not> IsHealthy (startPeriodicChecks probes (NewHealthChecker interval))) \<and>
   (fst (Check now reply h) \<longrightarrow> reply = Inr ''PONG'') \<and>
   (IsHealthy (snd (Check now reply h)) = fst (Check now reply h))"
proof -
  have fresh: "\<not> IsHealthy (NewHealthChecker interval)"
    by (simp add: IsHealthy_def NewHealthChecker_def)
  have run: "\<not> IsHealthy (startPeriodicChecks probes (NewHealthChecker interval))"
    if all: "\<forall>ps now reply rest. probes = ps @ (now, reply) # rest \<longrightarrow>
        \<not> fst (Check now reply (startPeriodicChecks ps (NewHealthChecker interval)))"
  proof (cases probes rule: rev_cases)
    case Nil
    then show ?thesis using fresh by simp
  next
    case (snoc ps p)
    obtain t r where p: "p = (t, r)" by (cases p)
    from all snoc p have "\<not> fst (Check t r (startPeriodicChecks ps (NewHealthChecker interval)))"
      by simp
    then show ?thesis
      by (simp add: snoc p startPeriodicChecks_append IsHealthy_def Check_status)
  qed
  show ?thesis using fresh run Check_true_PONG[of now reply h]
    by (auto simp: IsHealthy_def Check_status)
qed

text \<open>
  The theorem at work: after one probe that timed out the checker is unhealthy; a first
  probe answered \<open>PONG\<close> makes it healthy.
\<close>

theorem C10_unhealthy_witness:
  "\<not> fst (Check 0 (Inl (Msg ''timeout''))
           (startPeriodicChecks [] (NewHealthChecker (30 * Second)))) \<and>
   \<not> IsHealthy (startPeriodicChecks [(0, Inl (Msg ''timeout''))] (NewHealthChecker (30 * Second))) \<and>
   fst (Check 0 (Inr ''PONG'') (NewHealthChecker (30 * Second))) \<and>
   IsHealthy (snd (Check 0 (Inr ''PONG'') (NewHealthChecker (30 * Second))))"
proof -
  have first: "\<not> fst (Check 0 (Inl (Msg ''timeout''))
           (startPeriodicChecks [] (NewHealthChecker (30 * Second))))"
    by (simp add: health_defs Let_def)
  have hyp: "\<forall>ps now reply rest.
        [(0::int, Inl (Msg ''timeout'') :: error + string)] = ps @ (now, reply) # rest \<longrightarrow>
        \<not> fst (Check now reply (startPeriodicChecks ps (NewHealthChecker (30 * Second))))"
    using first by (auto simp: Cons_eq_append_conv)
  have ok: "fst (Check 0 (Inr ''PONG'') (NewHealthChecker (30 * Second)))"
    by (simp add: health_defs Let_def)
  show ?thesis
    using first hyp ok
      C10_unhealthy_before_first_success[of "30 * Second" "[(0, Inl (Msg ''timeout''))]" 0
        "Inr ''PONG''" "NewHealthChecker (30 * Second)"]
    by blast
qed

text \<open>
  Claim C8. For a checker with the settings of \<^verbatim>\<open>NewHealthChecker\<close>: a failed probe in
  the closed state leaves the checker unhealthy, and opens the breaker for thirty seconds
  when it is the third failure in a row; three failed probes of a new checker open it.
  While the breaker is open and its thirty seconds have not passed, a check returns false
  whatever the answer to a \<^verbatim>\<open>PING\<close> would be, sends no \<^verbatim>\<open>PING\<close> and changes nothing else.
  After the thirty seconds one probe is sent: answered \<open>PONG\<close> it closes the breaker and
  makes the checker healthy, failed it opens the breaker for another thirty seconds.
  \<^verbatim>\<open>IsHealthy\<close> reads the flag and nothing else.
\<close>

theorem C8_breaker:
  assumes st: "settings (circuitBreaker h) = settings (circuitBreaker (NewHealthChecker interval))"
  shows
  "(state (circuitBreaker h) = StateClosed \<longrightarrow>
      (let h1 = snd (Check now (Inl err) h) in
         \<not> IsHealthy h1 \<and>
         (if 3 \<le> Suc (ConsecutiveFailures (counts (circuitBreaker h)))
          then state (circuitBreaker h1) = StateOpen \<and>
               expiry (circuitBreaker h1) = now + 30 * Second
          else state (circuitBreaker h1) = StateClosed \<and>
               ConsecutiveFailures (counts (circuitBreaker h1)) =
                 Suc (ConsecutiveFailures (counts (circuitBreaker h)))))) \<and>
   (state (circuitBreaker h) = StateOpen \<and> now \<le> expiry (circuitBreaker h) \<longrightarrow>
      Check now reply h = (False, h\<lparr>status := False\<rparr>)) \<and>
   (state (circuitBreaker h) = StateOpen \<and> expiry (circuitBreaker h) < now \<longrightarrow>
      (let h1 = snd (Check now (Inr ''PONG'') h) in
         IsHealthy h1 \<and> state (circuitBreaker h1) = StateClosed \<and> client h1 = Suc (client h)) \<and>
      (let h1 = snd (Check now (Inl err) h) in
         \<not> IsHealthy h1 \<and> state (circuitBreaker h1) = StateOpen \<and>
         expiry (circuitBreaker h1) = now + 30 * Second \<and> client h1 = Suc (client h))) \<and>
   (let h3 = startPeriodicChecks [(t1, Inl e1), (t2, Inl e2), (t3, Inl e3)]
               (NewHealthChecker interval) in
      \<not> IsHealthy h3 \<and> state (circuitBreaker h3) = StateOpen \<and>
      expiry (circuitBreaker h3) = t3 + 30 * Second \<and> client h3 = 3) \<and>
   IsHealthy h = status h"
  using st
  by (auto simp: health_defs Let_def split: prod.splits sum.splits option.splits)

text \<open>
  The theorem at work: a first failed probe; then the checker after three failed probes,
  asked at ninety seconds (still open, although Redis would answer) and at a hundred and
  twenty seconds.
\<close>

theorem C8_breaker_witness:
  "settings (circuitBreaker hTripped) = settings (circuitBreaker (NewHealthChecker (30 * Second))) \<and>
   state (circuitBreaker (NewHealthChecker (30 * Second))) = StateClosed \<and>
   \<not> IsHealthy (snd (Check 0 (Inl (Msg ''timeout'')) (NewHealthChecker (30 * Second)))) \<and>
   state (circuitBreaker hTripped) = StateOpen \<and>
   expiry (circuitBreaker hTripped) = 90 * Second \<and>
   \<not> IsHealthy hTripped \<and>
   90 * Second \<le> expiry (circuitBreaker hTripped) \<and>
   Check (90 * Second) (Inr ''PONG'') hTripped = (False, hTripped\<lparr>status := False\<rparr>) \<and>
   expiry (circuitBreaker hTripped) < 120 * Second \<and>
   IsHealthy (snd (Check (120 * Second) (Inr ''PONG'') hTripped)) \<and>
   state (circuitBreaker (snd (Check (120 * Second) (Inr ''PONG'') hTripped))) = StateClosed \<and>
   state (circuitBreaker (snd (Check (120 * Second) (Inl (Msg ''timeout'')) hTripped))) = StateOpen"
proof -
  have st: "settings (circuitBreaker hTripped) =
      settings (circuitBreaker (NewHealthChecker (30 * Second)))"
    by (simp add: hTripped_def health_defs Let_def)
  have st0: "settings (circuitBreaker (NewHealthChecker (30 * Second))) =
      settings (circuitBreaker (NewHealthChecker (30 * Second)))"
    by simp
  have facts: "state (circuitBreaker hTripped) = StateOpen \<and>
      expiry (circuitBreaker hTripped) = 90 * Second \<and>
      state (circuitBreaker (NewHealthChecker (30 * Second))) = StateClosed \<and>
      \<not> status hTripped"
    by (simp add: hTripped_def health_defs Let_def Second_def)
  show ?thesis
    using st facts
      C8_breaker[OF st0, where now = 0 and err = "Msg ''timeout''" and reply = "Inr ''PONG''"]
      C8_breaker[OF st, where now = "90 * Second" and err = "Msg ''timeout''"
        and reply = "Inr ''PONG''"]
      C8_breaker[OF st, where now = "120 * Second" and err = "Msg ''timeout''"
        and reply = "Inr ''PONG''"]
    by (simp add: Let_def Second_def)
qed

end
